theory Spec2Isabelle
  imports Complex_Main "HOL-Library.Code_Target_Nat"
begin

section \<open>JavaScript values\<close>

text \<open>
  A JavaScript string is its sequence of UTF-16 code units; a code unit is a natural
  number. \<open>utf16\<close> gives the code units of an ASCII literal of the source.
\<close>

type_synonym js_string = "nat list"

definition utf16 :: "string \<Rightarrow> js_string" where
  "utf16 s = map of_char s"

text \<open>
  A Number is either NaN or \<open>Number r\<close>, the Number value that the mathematical value
  \<open>r\<close> is converted to (the double nearest to \<open>r\<close>). The conversion and the sign of zero
  are not modelled: the numbers in the data of the SDK are given by their exact value, and
  \<open>parseInt\<close> by the integer its digits write.
\<close>

datatype jsnum = NaN | Number rat

text \<open>
  The data an SDK call resolves with: JSON-like values and \<open>undefined\<close>. An object is the
  list of its own enumerable string-keyed properties in the order in which they were
  created (insertion order); an array is the list of its elements.
\<close>

datatype jsval =
    Undefined
  | Null
  | Bool bool
  | Num jsnum
  | Str js_string
  | Arr "jsval list"
  | Obj "(js_string \<times> jsval) list"

text \<open>\<open>typeof v\<close>.\<close>

fun typeof :: "jsval \<Rightarrow> js_string" where
  "typeof Undefined = utf16 ''undefined''"
| "typeof Null = utf16 ''object''"
| "typeof (Bool b) = utf16 ''boolean''"
| "typeof (Num n) = utf16 ''number''"
| "typeof (Str s) = utf16 ''string''"
| "typeof (Arr xs) = utf16 ''object''"
| "typeof (Obj kvs) = utf16 ''object''"

text \<open>ToBoolean, the test of \<open>if (v)\<close>, \<open>v && ...\<close> and \<open>!v\<close>.\<close>

fun truthy :: "jsval \<Rightarrow> bool" where
  "truthy Undefined = False"
| "truthy Null = False"
| "truthy (Bool b) = b"
| "truthy (Num NaN) = False"
| "truthy (Num (Number r)) = (r \<noteq> 0)"
| "truthy (Str s) = (s \<noteq> [])"
| "truthy (Arr xs) = True"
| "truthy (Obj kvs) = True"

fun Array_isArray :: "jsval \<Rightarrow> bool" where
  "Array_isArray (Arr xs) = True"
| "Array_isArray v = False"

subsection \<open>Property order and \<open>Object.values\<close>\<close>

definition is_digit :: "nat \<Rightarrow> bool" where
  "is_digit c \<longleftrightarrow> 48 \<le> c \<and> c \<le> 57"

text \<open>The number written by a string of decimal digits.\<close>

definition digits_value :: "js_string \<Rightarrow> nat" where
  "digits_value ds = foldl (\<lambda>acc c. 10 * acc + (c - 48)) 0 ds"

text \<open>
  An array index is a property key that is the canonical decimal numeral (no leading
  zero) of an integer from 0 to \<open>2^32 - 2\<close>.
\<close>

definition is_array_index :: "js_string \<Rightarrow> bool" where
  "is_array_index k \<longleftrightarrow>
     k \<noteq> [] \<and> list_all is_digit k \<and> (hd k \<noteq> 48 \<or> length k = 1) \<and> digits_value k < 2 ^ 32 - 1"

text \<open>
  The own property keys of an ordinary object are listed with the array indices first,
  in ascending numeric order, and then the other string keys in the order of their
  creation (OrdinaryOwnPropertyKeys). \<open>Object.values\<close> returns the values in that order.
\<close>

definition own_property_order :: "(js_string \<times> jsval) list \<Rightarrow> (js_string \<times> jsval) list" where
  "own_property_order kvs =
     sort_key (\<lambda>kv. digits_value (fst kv)) (filter (\<lambda>kv. is_array_index (fst kv)) kvs)
     @ filter (\<lambda>kv. \<not> is_array_index (fst kv)) kvs"

text \<open>
  \<open>Object.values(v)\<close>. The routes call it on a truthy value with \<open>typeof v === 'object'\<close>
  that is not an array, which in this data model is an \<open>Obj\<close>. For the other values: an
  array lists its elements, a string its code units as strings of length one, a boolean
  or a number has no own enumerable properties; on \<open>null\<close> and \<open>undefined\<close>, where
  \<open>Object.values\<close> throws, the guard of the routes keeps the call from being made.
\<close>

fun Object_values :: "jsval \<Rightarrow> jsval list" where
  "Object_values (Obj kvs) = map snd (own_property_order kvs)"
| "Object_values (Arr xs) = xs"
| "Object_values (Str s) = map (\<lambda>c. Str [c]) s"
| "Object_values v = []"

section \<open>The conversion of a raw SDK result to an array\<close>

text \<open>
  Each list route holds its own copy of the conversion. The elements of the resulting
  array are modelled, so that \<open>Arr (poisArray pois)\<close> is the array itself.
\<close>

text \<open>\<open>src/app/api/pois/route.js\<close>, the value of \<open>poisArray\<close>.\<close>

definition poisArray :: "jsval \<Rightarrow> jsval list" where
  "poisArray pois =
     (if Array_isArray pois then (case pois of Arr xs \<Rightarrow> xs | _ \<Rightarrow> [])
      else if truthy pois \<and> typeof pois = utf16 ''object'' then Object_values pois
      else [])"

text \<open>\<open>src/app/api/search/route.js\<close>, the value of \<open>resultsArray\<close>.\<close>

definition resultsArray :: "jsval \<Rightarrow> jsval list" where
  "resultsArray results =
     (if Array_isArray results then (case results of Arr xs \<Rightarrow> xs | _ \<Rightarrow> [])
      else if truthy results \<and> typeof results = utf16 ''object'' then Object_values results
      else [])"

text \<open>\<open>src/app/api/structures/route.js\<close>, the value of \<open>structuresArray\<close>.\<close>

definition structuresArray :: "jsval \<Rightarrow> jsval list" where
  "structuresArray structures =
     (if Array_isArray structures then (case structures of Arr xs \<Rightarrow> xs | _ \<Rightarrow> [])
      else if truthy structures \<and> typeof structures = utf16 ''object''
        then Object_values structures
      else [])"

text \<open>
  The rule as the specification words it (section 4.2): a sequence is returned unchanged,
  a keyed mapping gives its values in insertion order, anything else gives the empty
  sequence. It is compared with the three conversions of the source below.
\<close>

fun normalize_spec :: "jsval \<Rightarrow> jsval list" where
  "normalize_spec (Arr xs) = xs"
| "normalize_spec (Obj kvs) = map snd kvs"
| "normalize_spec v = []"

section \<open>The SDK and the handle cache\<close>

text \<open>
  A value that is thrown or that a promise rejects with is an Error object; the handlers
  read its \<open>message\<close>. (The specification, section 6: an SDK call rejects with an error
  carrying a message string.)
\<close>

datatype js_error = Error (error_message: js_string)

text \<open>
  What \<open>Init.newMap\<close> resolves with: a map object of the SDK, identified by its
  reference and carrying the five methods the routes call, or \<open>null\<close> or \<open>undefined\<close>.
\<close>

datatype handle = Null_handle | Undefined_handle | MapObject nat

fun truthy_handle :: "handle \<Rightarrow> bool" where
  "truthy_handle (MapObject r) = True"
| "truthy_handle h = False"

record config =
  accountId :: "js_string option"
  venueId :: "js_string option"

datatype sdk_method =
    getAllPOIs
  | getPOIDetails jsnum
  | search js_string
  | getStructures
  | getVenueData

fun method_name :: "sdk_method \<Rightarrow> js_string" where
  "method_name getAllPOIs = utf16 ''getAllPOIs''"
| "method_name (getPOIDetails n) = utf16 ''getPOIDetails''"
| "method_name (search q) = utf16 ''search''"
| "method_name getStructures = utf16 ''getStructures''"
| "method_name getVenueData = utf16 ''getVenueData''"

text \<open>A call that reaches the SDK: the constructor, or a method of a map object.\<close>

datatype sdk_call = NewMap config | Method nat sdk_method

text \<open>
  The SDK and the process environment are outside the repository. The outcome of an SDK
  call (\<open>Inl\<close>: the promise rejects, \<open>Inr\<close>: it resolves) is a function of the calls made
  before it and of the call itself, so that a later call may fail where an earlier one
  succeeded. The two environment variables are \<open>None\<close> when unset.
\<close>

record world =
  ATRIUSMAPS_ACCOUNT_ID :: "js_string option"
  ATRIUSMAPS_VENUE_ID :: "js_string option"
  newMap :: "sdk_call list \<Rightarrow> config \<Rightarrow> js_error + handle"
  run_method :: "sdk_call list \<Rightarrow> nat \<Rightarrow> sdk_method \<Rightarrow> js_error + jsval"

text \<open>
  The state of the server process: the module variable \<open>mapInstance\<close> of
  \<open>src/lib/mapService.js\<close>, and the SDK calls made so far, oldest first. Console output
  is not modelled.
\<close>

record server =
  mapInstance :: handle
  sdk_calls :: "sdk_call list"

definition initial_server :: server where
  "initial_server = \<lparr>mapInstance = Null_handle, sdk_calls = []\<rparr>"

text \<open>The object \<open>config\<close> that \<open>getMapInstance\<close> builds from \<open>process.env\<close>.\<close>

definition env_config :: "world \<Rightarrow> config" where
  "env_config w = \<lparr>accountId = ATRIUSMAPS_ACCOUNT_ID w, venueId = ATRIUSMAPS_VENUE_ID w\<rparr>"

text \<open>
  \<open>getMapInstance\<close> of \<open>src/lib/mapService.js\<close> runs in two steps, with the \<open>await\<close> of
  line 23 between them. The first step reads the guard \<open>if (mapInstance)\<close>: with a
  truthy cache the call is done and returns the cached handle; otherwise it invokes
  \<open>Init.newMap(config)\<close> and is suspended until the promise settles. The outcome of the
  promise is kept with the suspended call.
\<close>

datatype suspension = Done handle | Awaiting "js_error + handle"

definition getMapInstance_begin :: "world \<Rightarrow> server \<Rightarrow> server \<times> suspension" where
  "getMapInstance_begin w st =
     (if truthy_handle (mapInstance st) then (st, Done (mapInstance st))
      else
        let config = env_config w
        in (st\<lparr>sdk_calls := sdk_calls st @ [NewMap config]\<rparr>,
            Awaiting (newMap w (sdk_calls st) config)))"

text \<open>
  The second step runs when the promise has settled, on the server state of that
  moment: a resolved handle is assigned to \<open>mapInstance\<close> and returned, a rejection is
  thrown again and nothing is assigned.
\<close>

fun getMapInstance_resume :: "server \<Rightarrow> js_error + handle \<Rightarrow> server \<times> (js_error + handle)" where
  "getMapInstance_resume st (Inr h) = (st\<lparr>mapInstance := h\<rparr>, Inr h)"
| "getMapInstance_resume st (Inl err) = (st, Inl err)"

text \<open>
  A call of \<open>getMapInstance\<close> that no other code overlaps: the second step follows the
  first at once. The handlers below are run in this way, one request after the other;
  calls that overlap are the subject of the steps of a process further down.
\<close>

definition getMapInstance :: "world \<Rightarrow> server \<Rightarrow> server \<times> (js_error + handle)" where
  "getMapInstance w st =
     (case getMapInstance_begin w st of
        (st1, Done h) \<Rightarrow> (st1, Inr h)
      | (st1, Awaiting outcome) \<Rightarrow> getMapInstance_resume st1 outcome)"

text \<open>
  \<open>await map.m(...)\<close>. On \<open>null\<close> and \<open>undefined\<close> the property access throws a TypeError
  (the message is the wording of V8; 39 is the apostrophe) and the SDK is not reached.
\<close>

fun call_method :: "world \<Rightarrow> server \<Rightarrow> handle \<Rightarrow> sdk_method \<Rightarrow> server \<times> (js_error + jsval)" where
  "call_method w st (MapObject r) m =
     (st\<lparr>sdk_calls := sdk_calls st @ [Method r m]\<rparr>, run_method w (sdk_calls st) r m)"
| "call_method w st Null_handle m =
     (st, Inl (Error (utf16 ''Cannot read properties of null (reading '' @ [39]
                      @ method_name m @ [39] @ utf16 '')'')))"
| "call_method w st Undefined_handle m =
     (st, Inl (Error (utf16 ''Cannot read properties of undefined (reading '' @ [39]
                      @ method_name m @ [39] @ utf16 '')'')))"

section \<open>Responses\<close>

text \<open>
  The object literal a handler passes to \<open>NextResponse.json\<close>: a field is \<open>None\<close> when
  the literal has no such property.
\<close>

record envelope =
  success :: bool
  data :: "jsval option"
  count :: "nat option"
  query :: "js_string option"
  error :: "js_string option"
  message :: "js_string option"

record response =
  status :: nat
  body :: envelope

text \<open>\<open>NextResponse.json(body, init)\<close>; the status is 200 when \<open>init\<close> gives none.\<close>

definition NextResponse_json :: "envelope \<Rightarrow> nat option \<Rightarrow> response" where
  "NextResponse_json b init =
     \<lparr>status = (case init of None \<Rightarrow> 200 | Some s \<Rightarrow> s), body = b\<rparr>"

definition no_fields :: envelope where
  "no_fields = \<lparr>success = False, data = None, count = None, query = None,
                 error = None, message = None\<rparr>"

section \<open>Route handlers\<close>

text \<open>
  A block of a handler returns the new server state and either a response (\<open>Inr\<close>) or
  the error it throws (\<open>Inl\<close>); so does the handler itself, where \<open>Inl\<close> is an error that
  leaves it uncaught.
\<close>

type_synonym handler_result = "server \<times> (js_error + response)"

text \<open>
  \<open>try { ... } catch (error) { return ... }\<close>: an error thrown in the \<open>try\<close> block is
  turned into the response that the \<open>catch\<close> block returns.
\<close>

definition try_catch :: "handler_result \<Rightarrow> (js_error \<Rightarrow> response) \<Rightarrow> handler_result" where
  "try_catch block handler =
     (case block of
        (st, Inl err) \<Rightarrow> (st, Inr (handler err))
      | (st, Inr resp) \<Rightarrow> (st, Inr resp))"

subsection \<open>\<open>GET /api/pois\<close> (\<open>src/app/api/pois/route.js\<close>)\<close>

definition pois_catch :: "js_error \<Rightarrow> response" where
  "pois_catch err =
     NextResponse_json
       (no_fields\<lparr>success := False, error := Some (utf16 ''Failed to fetch POIs''),
                  message := Some (error_message err)\<rparr>)
       (Some 500)"

definition pois_try :: "world \<Rightarrow> server \<Rightarrow> handler_result" where
  "pois_try w st =
     (case getMapInstance w st of
        (st1, Inl err) \<Rightarrow> (st1, Inl err)
      | (st1, Inr map_handle) \<Rightarrow>
          (case call_method w st1 map_handle getAllPOIs of
             (st2, Inl err) \<Rightarrow> (st2, Inl err)
           | (st2, Inr pois) \<Rightarrow>
               (st2, Inr (NextResponse_json
                  (no_fields\<lparr>success := True, data := Some (Arr (poisArray pois)),
                             count := Some (length (poisArray pois))\<rparr>)
                  None))))"

definition GET_pois :: "world \<Rightarrow> server \<Rightarrow> handler_result" where
  "GET_pois w st = try_catch (pois_try w st) pois_catch"

text \<open>
  The \<open>catch\<close> block of the other four routes:
  \<open>{ success: false, error: error.message }\<close> with status 500.
\<close>

definition message_catch :: "js_error \<Rightarrow> response" where
  "message_catch err =
     NextResponse_json
       (no_fields\<lparr>success := False, error := Some (error_message err)\<rparr>)
       (Some 500)"

subsection \<open>\<open>GET /api/venue\<close> (second part of \<open>src/app/api/pois/route.js\<close>)\<close>

definition venue_try :: "world \<Rightarrow> server \<Rightarrow> handler_result" where
  "venue_try w st =
     (case getMapInstance w st of
        (st1, Inl err) \<Rightarrow> (st1, Inl err)
      | (st1, Inr map_handle) \<Rightarrow>
          (case call_method w st1 map_handle getVenueData of
             (st2, Inl err) \<Rightarrow> (st2, Inl err)
           | (st2, Inr venueData) \<Rightarrow>
               (st2, Inr (NextResponse_json
                  (no_fields\<lparr>success := True, data := Some venueData\<rparr>) None))))"

definition GET_venue :: "world \<Rightarrow> server \<Rightarrow> handler_result" where
  "GET_venue w st = try_catch (venue_try w st) message_catch"

subsection \<open>\<open>GET /api/structures\<close> (\<open>src/app/api/structures/route.js\<close>)\<close>

definition structures_try :: "world \<Rightarrow> server \<Rightarrow> handler_result" where
  "structures_try w st =
     (case getMapInstance w st of
        (st1, Inl err) \<Rightarrow> (st1, Inl err)
      | (st1, Inr map_handle) \<Rightarrow>
          (case call_method w st1 map_handle getStructures of
             (st2, Inl err) \<Rightarrow> (st2, Inl err)
           | (st2, Inr structures) \<Rightarrow>
               (st2, Inr (NextResponse_json
                  (no_fields\<lparr>success := True, data := Some (Arr (structuresArray structures)),
                             count := Some (length (structuresArray structures))\<rparr>)
                  None))))"

definition GET_structures :: "world \<Rightarrow> server \<Rightarrow> handler_result" where
  "GET_structures w st = try_catch (structures_try w st) message_catch"

subsection \<open>\<open>GET /api/search\<close> (\<open>src/app/api/search/route.js\<close>)\<close>

text \<open>
  The request carries the query parameters in the order of the URL;
  \<open>searchParams.get(name)\<close> is the first value given for \<open>name\<close>, or \<open>null\<close> (\<open>None\<close>).
\<close>

record request =
  searchParams :: "(js_string \<times> js_string) list"

definition searchParams_get :: "request \<Rightarrow> js_string \<Rightarrow> js_string option" where
  "searchParams_get req name = map_of (searchParams req) name"

definition query_required :: response where
  \<open>query_required =
     NextResponse_json
       (no_fields\<lparr>success := False,
                  error := Some (utf16 ''Query parameter "q" is required'')\<rparr>)
       (Some 400)\<close>

definition search_try :: "world \<Rightarrow> server \<Rightarrow> js_string \<Rightarrow> handler_result" where
  "search_try w st q =
     (case getMapInstance w st of
        (st1, Inl err) \<Rightarrow> (st1, Inl err)
      | (st1, Inr map_handle) \<Rightarrow>
          (case call_method w st1 map_handle (search q) of
             (st2, Inl err) \<Rightarrow> (st2, Inl err)
           | (st2, Inr results) \<Rightarrow>
               (st2, Inr (NextResponse_json
                  (no_fields\<lparr>success := True, data := Some (Arr (resultsArray results)),
                             count := Some (length (resultsArray results)),
                             query := Some q\<rparr>)
                  None))))"

text \<open>
  The test of the parameter comes before the \<open>try\<close> block; \<open>!query\<close> holds of \<open>null\<close>
  and of the empty string.
\<close>

definition GET_search :: "world \<Rightarrow> server \<Rightarrow> request \<Rightarrow> handler_result" where
  "GET_search w st req =
     (case searchParams_get req (utf16 ''q'') of
        None \<Rightarrow> (st, Inr query_required)
      | Some q \<Rightarrow>
          if q = [] then (st, Inr query_required)
          else try_catch (search_try w st q) message_catch)"

subsection \<open>\<open>GET /api/poi/[id]\<close> (\<open>src/unnamed/part_000\<close>)\<close>

text \<open>
  The white space that \<open>parseInt\<close> skips: TAB, LF, VT, FF, CR, the space separators
  (U+0020, U+00A0, U+1680, U+2000 to U+200A, U+202F, U+205F, U+3000), the line and
  paragraph separators and U+FEFF.
\<close>

definition is_white_space :: "nat \<Rightarrow> bool" where
  "is_white_space c \<longleftrightarrow>
     (9 \<le> c \<and> c \<le> 13) \<or> c = 32 \<or> c = 160 \<or> c = 5760 \<or> (8192 \<le> c \<and> c \<le> 8202)
     \<or> c = 8232 \<or> c = 8233 \<or> c = 8239 \<or> c = 8287 \<or> c = 12288 \<or> c = 65279"

text \<open>
  \<open>parseInt(string, 10)\<close>: leading white space is skipped, one sign (\<open>+\<close> is 43, \<open>-\<close> is
  45) is read, and the longest run of decimal digits that follows is the numeral; what
  comes after it is ignored. Without a digit the result is NaN. (An implementation may
  replace the digits after the 20th significant one by zeros; this is not modelled.)
\<close>

definition parseInt10 :: "js_string \<Rightarrow> jsnum" where
  "parseInt10 inputString =
     (let S = dropWhile is_white_space inputString;
          sign = (if S \<noteq> [] \<and> hd S = 45 then - 1 else 1 :: int);
          S' = (if S \<noteq> [] \<and> (hd S = 43 \<or> hd S = 45) then tl S else S);
          Z = takeWhile is_digit S'
      in if Z = [] then NaN else Number (of_int (sign * int (digits_value Z))))"

fun isNaN :: "jsnum \<Rightarrow> bool" where
  "isNaN NaN = True"
| "isNaN (Number r) = False"

definition invalid_poi_id :: response where
  "invalid_poi_id =
     NextResponse_json
       (no_fields\<lparr>success := False,
                  error := Some (utf16 ''Invalid POI ID - must be a number'')\<rparr>)
       (Some 400)"

text \<open>The \<open>try\<close> block, given the \<open>id\<close> segment of the path (\<open>params.id\<close>).\<close>

definition poi_try :: "world \<Rightarrow> server \<Rightarrow> js_string \<Rightarrow> handler_result" where
  "poi_try w st id_segment =
     (let poiId = parseInt10 id_segment in
      if isNaN poiId then (st, Inr invalid_poi_id)
      else
        (case getMapInstance w st of
           (st1, Inl err) \<Rightarrow> (st1, Inl err)
         | (st1, Inr map_handle) \<Rightarrow>
             (case call_method w st1 map_handle (getPOIDetails poiId) of
                (st2, Inl err) \<Rightarrow> (st2, Inl err)
              | (st2, Inr poi) \<Rightarrow>
                  (st2, Inr (NextResponse_json
                     (no_fields\<lparr>success := True, data := Some poi\<rparr>) None)))))"

definition GET_poi :: "world \<Rightarrow> server \<Rightarrow> js_string \<Rightarrow> handler_result" where
  "GET_poi w st id_segment = try_catch (poi_try w st id_segment) message_catch"

subsection \<open>The five routes together\<close>

datatype route =
    Pois
  | Poi js_string
  | SearchRoute request
  | Structures
  | Venue

fun serve :: "world \<Rightarrow> server \<Rightarrow> route \<Rightarrow> handler_result" where
  "serve w st Pois = GET_pois w st"
| "serve w st (Poi id_segment) = GET_poi w st id_segment"
| "serve w st (SearchRoute req) = GET_search w st req"
| "serve w st Structures = GET_structures w st"
| "serve w st Venue = GET_venue w st"

text \<open>The server state after a sequence of requests, handled one after the other.\<close>

fun serve_all :: "world \<Rightarrow> server \<Rightarrow> route list \<Rightarrow> server" where
  "serve_all w st [] = st"
| "serve_all w st (r # rs) = serve_all w (fst (serve w st r)) rs"

subsection \<open>Calls that overlap\<close>

text \<open>
  The server process with the calls of \<open>getMapInstance\<close> that are suspended at their
  \<open>await\<close>, each with the outcome its promise settles with, oldest first.
\<close>

record process =
  srv :: server
  awaiting :: "(js_error + handle) list"

text \<open>
  The steps by which code touches the shared state: a call of \<open>getMapInstance\<close> begins
  (\<open>Begin\<close>); the promise of the \<open>k\<close>-th suspended call settles and that call runs to
  its end (\<open>Settle k\<close>); a handler calls the method \<open>m\<close> on the handle it holds
  (\<open>Invoke h m\<close>). Steps of different calls may follow one another in any order.
\<close>

datatype event = Begin | Settle nat | Invoke handle sdk_method

text \<open>
  What a step shows: a call of \<open>getMapInstance\<close> has returned or thrown, a call has been
  suspended, or nothing that concerns \<open>getMapInstance\<close>.
\<close>

datatype observation = Returned "js_error + handle" | Suspended | Nothing

fun step :: "world \<Rightarrow> process \<Rightarrow> event \<Rightarrow> process \<times> observation" where
  "step w p Begin =
     (case getMapInstance_begin w (srv p) of
        (st1, Done h) \<Rightarrow> (p\<lparr>srv := st1\<rparr>, Returned (Inr h))
      | (st1, Awaiting outcome) \<Rightarrow>
          (p\<lparr>srv := st1, awaiting := awaiting p @ [outcome]\<rparr>, Suspended))"
| "step w p (Settle k) =
     (if k < length (awaiting p) then
        (case getMapInstance_resume (srv p) (awaiting p ! k) of
           (st1, res) \<Rightarrow>
             (p\<lparr>srv := st1, awaiting := take k (awaiting p) @ drop (Suc k) (awaiting p)\<rparr>,
              Returned res))
      else (p, Nothing))"
| "step w p (Invoke h m) = (p\<lparr>srv := fst (call_method w (srv p) h m)\<rparr>, Nothing)"

text \<open>A sequence of steps, with what each of them shows.\<close>

fun run :: "world \<Rightarrow> process \<Rightarrow> event list \<Rightarrow> process \<times> observation list" where
  "run w p [] = (p, [])"
| "run w p (ev # evs) =
     (case step w p ev of
        (p1, ob) \<Rightarrow> (case run w p1 evs of (p2, obs) \<Rightarrow> (p2, ob # obs)))"

subsection \<open>Observations on a run\<close>

fun is_NewMap :: "sdk_call \<Rightarrow> bool" where
  "is_NewMap (NewMap c) = True"
| "is_NewMap (Method r m) = False"

text \<open>The number of times \<open>Init.newMap\<close> has been invoked so far.\<close>

definition constructor_calls :: "server \<Rightarrow> nat" where
  "constructor_calls st = length (filter is_NewMap (sdk_calls st))"

text \<open>The server state after \<open>n\<close> successive calls of \<open>getMapInstance\<close>.\<close>

fun getMapInstance_times :: "world \<Rightarrow> nat \<Rightarrow> server \<Rightarrow> server" where
  "getMapInstance_times w 0 st = st"
| "getMapInstance_times w (Suc n) st = getMapInstance_times w n (fst (getMapInstance w st))"

text \<open>
  A server-error response for the error \<open>e\<close>: status 500, \<open>success: false\<close>, and the
  message text of \<open>e\<close> in the field \<open>error\<close> or in the field \<open>message\<close>.
\<close>

definition server_error :: "js_error \<Rightarrow> response \<Rightarrow> bool" where
  "server_error e resp \<longleftrightarrow>
     status resp = 500 \<and> success (body resp) = False
     \<and> (error (body resp) = Some (error_message e)
        \<or> message (body resp) = Some (error_message e))"

text \<open>
  The two awaited calls that open the \<open>try\<close> block of every handler, taken together:
  \<open>getMapInstance()\<close>, then the method \<open>m\<close> on the handle it returned.
\<close>

definition sdk_round :: "world \<Rightarrow> server \<Rightarrow> sdk_method \<Rightarrow> server \<times> (js_error + jsval)" where
  "sdk_round w st m =
     (case getMapInstance w st of
        (st1, Inl err) \<Rightarrow> (st1, Inl err)
      | (st1, Inr map_handle) \<Rightarrow> call_method w st1 map_handle m)"

section \<open>Example environments\<close>

text \<open>Every construction resolves with the map object 1, every method call with \<open>v\<close>.\<close>

definition steady_world :: "jsval \<Rightarrow> world" where
  "steady_world v =
     \<lparr>ATRIUSMAPS_ACCOUNT_ID = Some (utf16 ''account''),
      ATRIUSMAPS_VENUE_ID = Some (utf16 ''venue''),
      newMap = (\<lambda>calls c. Inr (MapObject 1)),
      run_method = (\<lambda>calls r m. Inr v)\<rparr>"

text \<open>
  The first construction resolves with \<open>null\<close>, every later one with the map object 1;
  every method call resolves with \<open>null\<close>.
\<close>

definition late_world :: world where
  "late_world =
     \<lparr>ATRIUSMAPS_ACCOUNT_ID = Some (utf16 ''account''),
      ATRIUSMAPS_VENUE_ID = Some (utf16 ''venue''),
      newMap = (\<lambda>calls c. if calls = [] then Inr Null_handle else Inr (MapObject 1)),
      run_method = (\<lambda>calls r m. Inr Null)\<rparr>"

text \<open>
  Every construction resolves with a new map object, numbered by the SDK calls made
  before it plus one.
\<close>

definition counting_world :: world where
  "counting_world =
     \<lparr>ATRIUSMAPS_ACCOUNT_ID = Some (utf16 ''account''),
      ATRIUSMAPS_VENUE_ID = Some (utf16 ''venue''),
      newMap = (\<lambda>calls c. Inr (MapObject (Suc (length calls)))),
      run_method = (\<lambda>calls r m. Inr Null)\<rparr>"

text \<open>Every construction resolves with \<open>undefined\<close>.\<close>

definition undefined_world :: world where
  "undefined_world =
     \<lparr>ATRIUSMAPS_ACCOUNT_ID = Some (utf16 ''account''),
      ATRIUSMAPS_VENUE_ID = Some (utf16 ''venue''),
      newMap = (\<lambda>calls c. Inr Undefined_handle),
      run_method = (\<lambda>calls r m. Inr Null)\<rparr>"

text \<open>
  The first construction is rejected, every later one resolves with the map object 1;
  every method call is rejected.
\<close>

definition failing_world :: world where
  "failing_world =
     \<lparr>ATRIUSMAPS_ACCOUNT_ID = None,
      ATRIUSMAPS_VENUE_ID = None,
      newMap = (\<lambda>calls c. if calls = [] then Inl (Error (utf16 ''init failed''))
                           else Inr (MapObject 1)),
      run_method = (\<lambda>calls r m. Inl (Error (utf16 ''backend unavailable'')))\<rparr>"

section \<open>The conversion of SDK results\<close>

lemmas handler_defs =
  GET_pois_def pois_try_def GET_venue_def venue_try_def GET_structures_def structures_try_def
  GET_search_def search_try_def GET_poi_def poi_try_def try_catch_def

lemma typeof_object_iff:
  "typeof v = utf16 ''object'' \<longleftrightarrow> v = Null \<or> (\<exists>xs. v = Arr xs) \<or> (\<exists>kvs. v = Obj kvs)"
  by (cases v) (simp_all add: utf16_def)

lemma poisArray_simps:
  "poisArray (Arr xs) = xs"
  "poisArray (Obj kvs) = map snd (own_property_order kvs)"
  "poisArray Undefined = []"
  "poisArray Null = []"
  "poisArray (Bool b) = []"
  "poisArray (Num n) = []"
  "poisArray (Str s) = []"
  by (simp_all add: poisArray_def utf16_def)

lemma resultsArray_eq: "resultsArray raw = poisArray raw"
  by (simp add: resultsArray_def poisArray_def)

lemma structuresArray_eq: "structuresArray raw = poisArray raw"
  by (simp add: structuresArray_def poisArray_def)

lemma own_property_order_insertion:
  assumes "\<forall>kv \<in> set ixs. is_array_index (fst kv)"
    and "sorted (map (\<lambda>kv. digits_value (fst kv)) ixs)"
    and "\<forall>kv \<in> set others. \<not> is_array_index (fst kv)"
  shows "own_property_order (ixs @ others) = ixs @ others"
  using assms by (simp add: own_property_order_def sort_key_id_if_sorted)

lemma is_array_index_0: "is_array_index (utf16 ''0'')"
  by (simp add: is_array_index_def utf16_def is_digit_def digits_value_def)

lemma is_array_index_1: "is_array_index (utf16 ''1'')"
  by (simp add: is_array_index_def utf16_def is_digit_def digits_value_def)

lemma digits_value_0_1: "digits_value (utf16 ''0'') = 0" "digits_value (utf16 ''1'') = 1"
  by (simp_all add: utf16_def digits_value_def)

section \<open>The handle cache\<close>

text \<open>A call that is not overlapped, in one piece.\<close>

lemma getMapInstance_sequential:
  "getMapInstance w st =
     (if truthy_handle (mapInstance st) then (st, Inr (mapInstance st))
      else
        let config = env_config w;
            st1 = st\<lparr>sdk_calls := sdk_calls st @ [NewMap config]\<rparr>
        in (case newMap w (sdk_calls st) config of
              Inr h \<Rightarrow> (st1\<lparr>mapInstance := h\<rparr>, Inr h)
            | Inl err \<Rightarrow> (st1, Inl err)))"
  by (simp add: getMapInstance_def getMapInstance_begin_def Let_def split: sum.splits)

text \<open>
  The same call as steps of a process in which nothing else is pending: it begins, is
  suspended, and its promise settles next.
\<close>

lemma getMapInstance_as_steps:
  "\<not> truthy_handle (mapInstance st) \<Longrightarrow>
   run w \<lparr>srv = st, awaiting = []\<rparr> [Begin, Settle 0] =
     (\<lparr>srv = fst (getMapInstance w st), awaiting = []\<rparr>,
      [Suspended, Returned (snd (getMapInstance w st))])"
  by (cases "newMap w (sdk_calls st) (env_config w)")
     (simp_all add: getMapInstance_def getMapInstance_begin_def Let_def)

lemma getMapInstance_cached:
  "truthy_handle (mapInstance st) \<Longrightarrow> getMapInstance w st = (st, Inr (mapInstance st))"
  by (simp add: getMapInstance_sequential)

lemma getMapInstance_construct:
  "\<not> truthy_handle (mapInstance st) \<Longrightarrow>
   getMapInstance w st =
     (case newMap w (sdk_calls st) (env_config w) of
        Inr h \<Rightarrow> (st\<lparr>sdk_calls := sdk_calls st @ [NewMap (env_config w)], mapInstance := h\<rparr>, Inr h)
      | Inl err \<Rightarrow> (st\<lparr>sdk_calls := sdk_calls st @ [NewMap (env_config w)]\<rparr>, Inl err))"
  by (simp add: getMapInstance_sequential Let_def split: sum.splits)

lemma getMapInstance_result_cached:
  "getMapInstance w st0 = (st, Inr h) \<Longrightarrow> truthy_handle h \<Longrightarrow> mapInstance st = h"
  by (auto simp: getMapInstance_sequential Let_def split: if_splits sum.splits)

lemma call_method_state:
  "mapInstance (fst (call_method w st h m)) = mapInstance st
   \<and> constructor_calls (fst (call_method w st h m)) = constructor_calls st"
  by (cases h) (simp_all add: constructor_calls_def)

lemma call_method_state':
  "call_method w st h m = (st', r) \<Longrightarrow>
     mapInstance st' = mapInstance st \<and> constructor_calls st' = constructor_calls st"
  using call_method_state [of w st h m] by simp

lemma GET_pois_cached:
  "truthy_handle (mapInstance st) \<Longrightarrow>
   mapInstance (fst (GET_pois w st)) = mapInstance st
   \<and> constructor_calls (fst (GET_pois w st)) = constructor_calls st"
  by (auto simp: handler_defs getMapInstance_cached dest: call_method_state'
      split: prod.splits sum.splits)

lemma GET_venue_cached:
  "truthy_handle (mapInstance st) \<Longrightarrow>
   mapInstance (fst (GET_venue w st)) = mapInstance st
   \<and> constructor_calls (fst (GET_venue w st)) = constructor_calls st"
  by (auto simp: handler_defs getMapInstance_cached dest: call_method_state'
      split: prod.splits sum.splits)

lemma GET_structures_cached:
  "truthy_handle (mapInstance st) \<Longrightarrow>
   mapInstance (fst (GET_structures w st)) = mapInstance st
   \<and> constructor_calls (fst (GET_structures w st)) = constructor_calls st"
  by (auto simp: handler_defs getMapInstance_cached dest: call_method_state'
      split: prod.splits sum.splits)

lemma GET_search_cached:
  "truthy_handle (mapInstance st) \<Longrightarrow>
   mapInstance (fst (GET_search w st req)) = mapInstance st
   \<and> constructor_calls (fst (GET_search w st req)) = constructor_calls st"
  by (auto simp: handler_defs getMapInstance_cached dest: call_method_state'
      split: prod.splits sum.splits option.splits)

lemma GET_poi_cached:
  "truthy_handle (mapInstance st) \<Longrightarrow>
   mapInstance (fst (GET_poi w st i)) = mapInstance st
   \<and> constructor_calls (fst (GET_poi w st i)) = constructor_calls st"
  by (auto simp: handler_defs Let_def getMapInstance_cached dest: call_method_state'
      split: prod.splits sum.splits)

lemma serve_cached:
  "truthy_handle (mapInstance st) \<Longrightarrow>
   mapInstance (fst (serve w st r)) = mapInstance st
   \<and> constructor_calls (fst (serve w st r)) = constructor_calls st"
  by (cases r)
     (simp_all add: GET_pois_cached GET_poi_cached GET_search_cached GET_structures_cached
        GET_venue_cached)

lemma serve_all_cached:
  "truthy_handle (mapInstance st) \<Longrightarrow>
   mapInstance (serve_all w st rs) = mapInstance st
   \<and> constructor_calls (serve_all w st rs) = constructor_calls st"
proof (induction rs arbitrary: st)
  case Nil
  show ?case by simp
next
  case (Cons r rs)
  from Cons.prems have step: "mapInstance (fst (serve w st r)) = mapInstance st"
    "constructor_calls (fst (serve w st r)) = constructor_calls st"
    by (simp_all add: serve_cached)
  with Cons.prems have "truthy_handle (mapInstance (fst (serve w st r)))" by simp
  from Cons.IH [OF this] step show ?case by simp
qed

text \<open>
  With a truthy handle in the cache and no construction pending, no step changes the
  cache or invokes the constructor, and every call that begins returns the cached
  handle at once.
\<close>

lemma step_cached:
  assumes t: "truthy_handle (mapInstance (srv p))" and n: "awaiting p = []"
  shows "mapInstance (srv (fst (step w p ev))) = mapInstance (srv p)
     \<and> awaiting (fst (step w p ev)) = []
     \<and> constructor_calls (srv (fst (step w p ev))) = constructor_calls (srv p)
     \<and> snd (step w p ev) =
         (case ev of Begin \<Rightarrow> Returned (Inr (mapInstance (srv p))) | _ \<Rightarrow> Nothing)"
proof (cases ev)
  case Begin
  with t n show ?thesis by (simp add: getMapInstance_begin_def)
next
  case (Settle k)
  with n show ?thesis by simp
next
  case (Invoke h m)
  with n show ?thesis using call_method_state [of w "srv p" h m] by simp
qed

lemma run_cached:
  "truthy_handle (mapInstance (srv p)) \<Longrightarrow> awaiting p = [] \<Longrightarrow>
   mapInstance (srv (fst (run w p evs))) = mapInstance (srv p)
   \<and> awaiting (fst (run w p evs)) = []
   \<and> constructor_calls (srv (fst (run w p evs))) = constructor_calls (srv p)
   \<and> snd (run w p evs) =
       map (\<lambda>ev. case ev of Begin \<Rightarrow> Returned (Inr (mapInstance (srv p))) | _ \<Rightarrow> Nothing) evs"
proof (induction evs arbitrary: p)
  case Nil
  then show ?case by simp
next
  case (Cons ev evs)
  let ?p1 = "fst (step w p ev)"
  from step_cached [OF Cons.prems, of w ev]
  have s: "mapInstance (srv ?p1) = mapInstance (srv p)" "awaiting ?p1 = []"
    "constructor_calls (srv ?p1) = constructor_calls (srv p)"
    "snd (step w p ev) =
       (case ev of Begin \<Rightarrow> Returned (Inr (mapInstance (srv p))) | _ \<Rightarrow> Nothing)"
    by simp_all
  from s(1) Cons.prems(1) have t1: "truthy_handle (mapInstance (srv ?p1))" by simp
  from Cons.IH [OF t1 s(2)] s show ?case
    by (simp add: split_beta)
qed

lemma step_returned:
  assumes "step w p0 ev = (p, Returned (Inr h))"
  shows "mapInstance (srv p) = h"
proof (cases ev)
  case Begin
  with assms show ?thesis
    by (auto simp: getMapInstance_begin_def Let_def split: if_splits)
next
  case (Settle k)
  with assms show ?thesis
    by (cases "awaiting p0 ! k") (auto split: if_splits)
next
  case (Invoke h' m)
  with assms show ?thesis by simp
qed

text \<open>
  C2, as amended. Once a call of \<open>getMapInstance\<close> has completed with a truthy handle
  \<open>h\<close> (a map object) and no construction begun by another call is still pending, the
  handle stays in the cache: in every sequence of steps that follows, in which calls
  may overlap and handlers may call methods, every call of \<open>getMapInstance\<close> returns
  \<open>h\<close>, none is suspended and \<open>Init.newMap\<close> is not invoked again. The same holds
  after any sequence \<open>rs\<close> of requests served by the five routes.
\<close>

theorem cached_handle_reused:
  assumes completed: "step w p0 ev = (p, Returned (Inr h))"
    and truthy: "truthy_handle h"
    and none_pending: "awaiting p = []"
  shows "mapInstance (srv (fst (run w p evs))) = h
     \<and> awaiting (fst (run w p evs)) = []
     \<and> constructor_calls (srv (fst (run w p evs))) = constructor_calls (srv p)
     \<and> snd (run w p evs) = map (\<lambda>ev. case ev of Begin \<Rightarrow> Returned (Inr h) | _ \<Rightarrow> Nothing) evs
     \<and> getMapInstance w (serve_all w (srv p) rs) = (serve_all w (srv p) rs, Inr h)
     \<and> constructor_calls (serve_all w (srv p) rs) = constructor_calls (srv p)"
proof -
  from completed have cached: "mapInstance (srv p) = h"
    by (rule step_returned)
  with truthy have t: "truthy_handle (mapInstance (srv p))" by simp
  have overlapping: "mapInstance (srv (fst (run w p evs))) = h
     \<and> awaiting (fst (run w p evs)) = []
     \<and> constructor_calls (srv (fst (run w p evs))) = constructor_calls (srv p)
     \<and> snd (run w p evs) = map (\<lambda>ev. case ev of Begin \<Rightarrow> Returned (Inr h) | _ \<Rightarrow> Nothing) evs"
    using run_cached [OF t none_pending, of w evs] unfolding cached .
  from serve_all_cached [OF t, of w rs] cached
  have "mapInstance (serve_all w (srv p) rs) = h"
    and calls: "constructor_calls (serve_all w (srv p) rs) = constructor_calls (srv p)"
    by simp_all
  with truthy have "getMapInstance w (serve_all w (srv p) rs) = (serve_all w (srv p) rs, Inr h)"
    using getMapInstance_cached [of "serve_all w (srv p) rs" w] by simp
  with overlapping calls show ?thesis by simp
qed

text \<open>
  An instance: the only suspended call settles with the map object 1 and returns it.
  Of the steps that follow, the three calls return the map object 1, the method call
  and the settling of a promise that does not exist show nothing, and the constructor
  has run once; after a request to the POI list and one to the venue data the cache
  still returns the map object 1.
\<close>

theorem cached_handle_reused_witness:
  "step (steady_world Null)
     \<lparr>srv = \<lparr>mapInstance = Null_handle, sdk_calls = [NewMap (env_config (steady_world Null))]\<rparr>,
      awaiting = [Inr (MapObject 1)]\<rparr> (Settle 0)
     = (\<lparr>srv = \<lparr>mapInstance = MapObject 1,
                 sdk_calls = [NewMap (env_config (steady_world Null))]\<rparr>,
         awaiting = []\<rparr>, Returned (Inr (MapObject 1)))
   \<and> truthy_handle (MapObject 1)
   \<and> snd (run (steady_world Null)
        \<lparr>srv = \<lparr>mapInstance = MapObject 1,
                sdk_calls = [NewMap (env_config (steady_world Null))]\<rparr>,
         awaiting = []\<rparr>
        [Begin, Begin, Invoke (MapObject 1) getAllPOIs, Settle 0, Begin])
     = [Returned (Inr (MapObject 1)), Returned (Inr (MapObject 1)), Nothing, Nothing,
        Returned (Inr (MapObject 1))]
   \<and> constructor_calls (srv (fst (run (steady_world Null)
        \<lparr>srv = \<lparr>mapInstance = MapObject 1,
                sdk_calls = [NewMap (env_config (steady_world Null))]\<rparr>,
         awaiting = []\<rparr>
        [Begin, Begin, Invoke (MapObject 1) getAllPOIs, Settle 0, Begin]))) = 1
   \<and> getMapInstance (steady_world Null)
        (serve_all (steady_world Null)
           \<lparr>mapInstance = MapObject 1, sdk_calls = [NewMap (env_config (steady_world Null))]\<rparr>
           [Pois, Venue])
     = (serve_all (steady_world Null)
           \<lparr>mapInstance = MapObject 1, sdk_calls = [NewMap (env_config (steady_world Null))]\<rparr>
           [Pois, Venue], Inr (MapObject 1))"
proof -
  let ?w = "steady_world Null"
  let ?st = "\<lparr>mapInstance = MapObject 1, sdk_calls = [NewMap (env_config ?w)]\<rparr>"
  let ?before = "\<lparr>srv = \<lparr>mapInstance = Null_handle, sdk_calls = [NewMap (env_config ?w)]\<rparr>,
             awaiting = [Inr (MapObject 1)]\<rparr>"
  let ?after = "\<lparr>srv = ?st, awaiting = []\<rparr>"
  have completed: "step ?w ?before (Settle 0) = (?after, Returned (Inr (MapObject 1)))"
    by simp
  have t: "truthy_handle (MapObject 1)" by simp
  have n: "awaiting ?after = []" by simp
  from cached_handle_reused [OF completed t n,
      of "[Begin, Begin, Invoke (MapObject 1) getAllPOIs, Settle 0, Begin]" "[Pois, Venue]"]
    completed t
  show ?thesis by (simp add: constructor_calls_def)
qed

text \<open>
  C2 as stated fails in two ways. When two first calls overlap, both find the cache
  empty and both construct: the first completes and returns the map object 1, the
  second then overwrites the cache, and a later call returns the map object 2. And
  when the constructor resolves with \<open>null\<close>, the first call completes and returns
  \<open>null\<close>, and the next call invokes \<open>Init.newMap\<close> again and returns another value.
\<close>

theorem overlapping_calls_counterexample:
  "snd (run counting_world \<lparr>srv = initial_server, awaiting = []\<rparr>
          [Begin, Begin, Settle 0, Settle 0, Begin])
     = [Suspended, Suspended, Returned (Inr (MapObject 1)), Returned (Inr (MapObject 2)),
        Returned (Inr (MapObject 2))]
   \<and> getMapInstance late_world initial_server
     = (\<lparr>mapInstance = Null_handle, sdk_calls = [NewMap (env_config late_world)]\<rparr>,
        Inr Null_handle)
   \<and> getMapInstance late_world
        \<lparr>mapInstance = Null_handle, sdk_calls = [NewMap (env_config late_world)]\<rparr>
     = (\<lparr>mapInstance = MapObject 1,
          sdk_calls = [NewMap (env_config late_world), NewMap (env_config late_world)]\<rparr>,
        Inr (MapObject 1))"
proof -
  have overlap: "snd (run counting_world \<lparr>srv = initial_server, awaiting = []\<rparr>
          [Begin, Begin, Settle 0, Settle 0, Begin])
     = [Suspended, Suspended, Returned (Inr (MapObject 1)), Returned (Inr (MapObject 2)),
        Returned (Inr (MapObject 2))]"
    by (simp add: getMapInstance_begin_def initial_server_def counting_world_def Let_def)
  have null: "getMapInstance late_world initial_server
     = (\<lparr>mapInstance = Null_handle, sdk_calls = [NewMap (env_config late_world)]\<rparr>,
        Inr Null_handle)
   \<and> getMapInstance late_world
        \<lparr>mapInstance = Null_handle, sdk_calls = [NewMap (env_config late_world)]\<rparr>
     = (\<lparr>mapInstance = MapObject 1,
          sdk_calls = [NewMap (env_config late_world), NewMap (env_config late_world)]\<rparr>,
        Inr (MapObject 1))"
    by (simp add: getMapInstance_sequential initial_server_def late_world_def Let_def)
  from overlap null show ?thesis by simp
qed

text \<open>
  C3. When a call of \<open>getMapInstance\<close> attempts the construction (the cache is empty)
  and \<open>Init.newMap\<close> rejects with \<open>e\<close>, the call throws \<open>e\<close> and \<open>mapInstance\<close> keeps its
  value, \<open>null\<close> in a fresh process. The next call invokes \<open>Init.newMap\<close> once more and
  returns or throws whatever that second construction gives: the failure is not
  memoized.
\<close>

theorem construction_failure_not_cached:
  assumes "\<not> truthy_handle (mapInstance st)"
    and "newMap w (sdk_calls st) (env_config w) = Inl e"
  shows "snd (getMapInstance w st) = Inl e
     \<and> mapInstance (fst (getMapInstance w st)) = mapInstance st
     \<and> sdk_calls (fst (getMapInstance w (fst (getMapInstance w st))))
         = sdk_calls st @ [NewMap (env_config w), NewMap (env_config w)]
     \<and> snd (getMapInstance w (fst (getMapInstance w st)))
         = newMap w (sdk_calls st @ [NewMap (env_config w)]) (env_config w)"
proof -
  let ?st1 = "st\<lparr>sdk_calls := sdk_calls st @ [NewMap (env_config w)]\<rparr>"
  from assms have first: "getMapInstance w st = (?st1, Inl e)"
    by (simp add: getMapInstance_construct)
  from assms(1) have empty: "\<not> truthy_handle (mapInstance ?st1)" by simp
  have second: "sdk_calls (fst (getMapInstance w ?st1))
         = sdk_calls st @ [NewMap (env_config w), NewMap (env_config w)]
     \<and> snd (getMapInstance w ?st1)
         = newMap w (sdk_calls st @ [NewMap (env_config w)]) (env_config w)"
    by (simp add: getMapInstance_construct [OF empty] split: sum.splits)
  from first second show ?thesis by simp
qed

text \<open>
  An instance: in a fresh process the first construction is rejected, \<open>mapInstance\<close>
  stays \<open>null\<close>, and the second call constructs the map object 1.
\<close>

theorem construction_failure_not_cached_witness:
  "\<not> truthy_handle (mapInstance initial_server)
   \<and> newMap failing_world (sdk_calls initial_server) (env_config failing_world)
       = Inl (Error (utf16 ''init failed''))
   \<and> snd (getMapInstance failing_world initial_server) = Inl (Error (utf16 ''init failed''))
   \<and> mapInstance (fst (getMapInstance failing_world initial_server)) = Null_handle
   \<and> snd (getMapInstance failing_world (fst (getMapInstance failing_world initial_server)))
       = Inr (MapObject 1)"
proof -
  have a: "\<not> truthy_handle (mapInstance initial_server)"
    by (simp add: initial_server_def)
  have b: "newMap failing_world (sdk_calls initial_server) (env_config failing_world)
       = Inl (Error (utf16 ''init failed''))"
    by (simp add: initial_server_def failing_world_def)
  from construction_failure_not_cached [OF a b] a b show ?thesis
    by (simp add: initial_server_def failing_world_def)
qed

lemma getMapInstance_calls_grow:
  "constructor_calls (fst (getMapInstance w st)) =
     (if truthy_handle (mapInstance st) then constructor_calls st else Suc (constructor_calls st))"
  by (simp add: getMapInstance_sequential Let_def constructor_calls_def split: sum.splits)

lemma getMapInstance_times_cached:
  "truthy_handle (mapInstance st) \<Longrightarrow> getMapInstance_times w n st = st"
  by (induction n) (simp_all add: getMapInstance_cached)

lemma getMapInstance_times_never_truthy:
  assumes never: "\<forall>calls h'. newMap w calls (env_config w) = Inr h' \<longrightarrow> \<not> truthy_handle h'"
  shows "\<not> truthy_handle (mapInstance st) \<Longrightarrow>
     constructor_calls (getMapInstance_times w n st) = constructor_calls st + n"
proof (induction n arbitrary: st)
  case 0
  show ?case by simp
next
  case (Suc n)
  let ?st1 = "fst (getMapInstance w st)"
  from Suc.prems never have "\<not> truthy_handle (mapInstance ?st1)"
    by (auto simp: getMapInstance_construct split: sum.splits)
  from Suc.IH [OF this] Suc.prems show ?case
    by (simp add: getMapInstance_calls_grow)
qed

text \<open>
  C10. When the cache is empty and \<open>Init.newMap\<close> resolves with \<open>h\<close>, \<open>getMapInstance\<close>
  returns \<open>h\<close>. If \<open>h\<close> is falsy (\<open>null\<close> or \<open>undefined\<close>), the guard \<open>if (mapInstance)\<close>
  still finds the cache empty: the next call invokes \<open>Init.newMap\<close> again, and as long
  as the constructor yields no truthy handle each of \<open>n\<close> further calls adds one
  construction. If \<open>h\<close> is truthy, \<open>n\<close> further calls add none: at most one construction
  holds under that precondition only.
\<close>

theorem falsy_handle_not_memoized:
  assumes empty: "\<not> truthy_handle (mapInstance st)"
    and resolves: "newMap w (sdk_calls st) (env_config w) = Inr h"
  shows "snd (getMapInstance w st) = Inr h
     \<and> (\<not> truthy_handle h \<longrightarrow>
          \<not> truthy_handle (mapInstance (fst (getMapInstance w st)))
          \<and> sdk_calls (fst (getMapInstance w (fst (getMapInstance w st))))
              = sdk_calls st @ [NewMap (env_config w), NewMap (env_config w)]
          \<and> ((\<forall>calls h'. newMap w calls (env_config w) = Inr h' \<longrightarrow> \<not> truthy_handle h')
               \<longrightarrow> constructor_calls (getMapInstance_times w n (fst (getMapInstance w st)))
                    = constructor_calls (fst (getMapInstance w st)) + n))
     \<and> (truthy_handle h \<longrightarrow>
          constructor_calls (getMapInstance_times w n (fst (getMapInstance w st)))
            = constructor_calls (fst (getMapInstance w st)))"
proof -
  let ?c = "env_config w"
  let ?st1 = "st\<lparr>sdk_calls := sdk_calls st @ [NewMap ?c], mapInstance := h\<rparr>"
  from assms have first: "getMapInstance w st = (?st1, Inr h)"
    by (simp add: getMapInstance_construct)
  have falsy: "\<not> truthy_handle (mapInstance ?st1)
          \<and> sdk_calls (fst (getMapInstance w ?st1)) = sdk_calls st @ [NewMap ?c, NewMap ?c]
          \<and> ((\<forall>calls h'. newMap w calls ?c = Inr h' \<longrightarrow> \<not> truthy_handle h')
               \<longrightarrow> constructor_calls (getMapInstance_times w n ?st1)
                    = constructor_calls ?st1 + n)"
    if h: "\<not> truthy_handle h"
  proof -
    from h have e1: "\<not> truthy_handle (mapInstance ?st1)" by simp
    have "sdk_calls (fst (getMapInstance w ?st1)) = sdk_calls st @ [NewMap ?c, NewMap ?c]"
      by (simp add: getMapInstance_construct [OF e1] split: sum.splits)
    with e1 show ?thesis
      using getMapInstance_times_never_truthy [of w ?st1 n] by blast
  qed
  have truthy: "constructor_calls (getMapInstance_times w n ?st1) = constructor_calls ?st1"
    if h: "truthy_handle h"
    using h by (simp add: getMapInstance_times_cached)
  from first falsy truthy show ?thesis by simp
qed

text \<open>
  An instance: the constructor resolves with \<open>undefined\<close> every time; the first call
  returns \<open>undefined\<close>, and after three more calls \<open>Init.newMap\<close> has run four times.
\<close>

theorem falsy_handle_not_memoized_witness:
  "\<not> truthy_handle (mapInstance initial_server)
   \<and> newMap undefined_world (sdk_calls initial_server) (env_config undefined_world)
       = Inr Undefined_handle
   \<and> \<not> truthy_handle Undefined_handle
   \<and> snd (getMapInstance undefined_world initial_server) = Inr Undefined_handle
   \<and> constructor_calls (fst (getMapInstance undefined_world initial_server)) = 1
   \<and> constructor_calls
        (getMapInstance_times undefined_world 3 (fst (getMapInstance undefined_world initial_server)))
       = 4"
proof -
  have a: "\<not> truthy_handle (mapInstance initial_server)"
    by (simp add: initial_server_def)
  have b: "newMap undefined_world (sdk_calls initial_server) (env_config undefined_world)
       = Inr Undefined_handle"
    by (simp add: undefined_world_def)
  have c: "\<forall>calls h'. newMap undefined_world calls (env_config undefined_world) = Inr h'
             \<longrightarrow> \<not> truthy_handle h'"
    by (auto simp: undefined_world_def)
  have d: "constructor_calls (fst (getMapInstance undefined_world initial_server)) = 1"
    by (simp add: getMapInstance_calls_grow a) (simp add: constructor_calls_def initial_server_def)
  from falsy_handle_not_memoized [OF a b, of 3] a b c d show ?thesis
    by simp
qed

section \<open>The responses of the routes\<close>

lemmas run_defs = getMapInstance_sequential call_method.simps env_config_def initial_server_def
  steady_world_def failing_world_def Let_def
  NextResponse_json_def no_fields_def pois_catch_def message_catch_def

lemma response_simps:
  "status (NextResponse_json b init) = (case init of None \<Rightarrow> 200 | Some s \<Rightarrow> s)"
  "body (NextResponse_json b init) = b"
  by (simp_all add: NextResponse_json_def)

lemma catch_simps:
  "status (pois_catch e) = 500" "success (body (pois_catch e)) = False"
  "data (body (pois_catch e)) = None" "message (body (pois_catch e)) = Some (error_message e)"
  "error (body (pois_catch e)) = Some (utf16 ''Failed to fetch POIs'')"
  "status (message_catch e) = 500" "success (body (message_catch e)) = False"
  "data (body (message_catch e)) = None" "error (body (message_catch e)) = Some (error_message e)"
  "message (body (message_catch e)) = None"
  by (simp_all add: pois_catch_def message_catch_def NextResponse_json_def no_fields_def)

lemma server_error_catch: "server_error e (pois_catch e)" "server_error e (message_catch e)"
  by (simp_all add: server_error_def catch_simps)

lemma validation_simps:
  "status query_required = 400" "success (body query_required) = False"
  "data (body query_required) = None"
  "status invalid_poi_id = 400" "success (body invalid_poi_id) = False"
  "data (body invalid_poi_id) = None"
  by (simp_all add: query_required_def invalid_poi_id_def NextResponse_json_def no_fields_def)

lemma GET_pois_invariant:
  "\<exists>resp. snd (GET_pois w st) = Inr resp
     \<and> (success (body resp) \<longrightarrow> error (body resp) = None)
     \<and> (\<not> success (body resp) \<longrightarrow> data (body resp) = None)"
  by (simp add: handler_defs catch_simps response_simps no_fields_def split: prod.splits sum.splits)

lemma GET_venue_invariant:
  "\<exists>resp. snd (GET_venue w st) = Inr resp
     \<and> (success (body resp) \<longrightarrow> error (body resp) = None)
     \<and> (\<not> success (body resp) \<longrightarrow> data (body resp) = None)"
  by (simp add: handler_defs catch_simps response_simps no_fields_def split: prod.splits sum.splits)

lemma GET_structures_invariant:
  "\<exists>resp. snd (GET_structures w st) = Inr resp
     \<and> (success (body resp) \<longrightarrow> error (body resp) = None)
     \<and> (\<not> success (body resp) \<longrightarrow> data (body resp) = None)"
  by (simp add: handler_defs catch_simps response_simps no_fields_def
      split: prod.splits sum.splits)

lemma GET_search_invariant:
  "\<exists>resp. snd (GET_search w st req) = Inr resp
     \<and> (success (body resp) \<longrightarrow> error (body resp) = None)
     \<and> (\<not> success (body resp) \<longrightarrow> data (body resp) = None)"
  by (simp add: handler_defs catch_simps validation_simps response_simps no_fields_def
      split: prod.splits sum.splits option.splits)

lemma GET_poi_invariant:
  "\<exists>resp. snd (GET_poi w st i) = Inr resp
     \<and> (success (body resp) \<longrightarrow> error (body resp) = None)
     \<and> (\<not> success (body resp) \<longrightarrow> data (body resp) = None)"
  by (simp add: handler_defs Let_def catch_simps validation_simps response_simps no_fields_def
      split: prod.splits sum.splits)

lemma no_escape: "\<exists>resp. snd (serve w st r) = Inr resp"
proof (cases r)
  case Pois
  then show ?thesis using GET_pois_invariant [of w st] by auto
next
  case (Poi i)
  then show ?thesis using GET_poi_invariant [of w st i] by auto
next
  case (SearchRoute req)
  then show ?thesis using GET_search_invariant [of w st req] by auto
next
  case Structures
  then show ?thesis using GET_structures_invariant [of w st] by auto
next
  case Venue
  then show ?thesis using GET_venue_invariant [of w st] by auto
qed

lemma GET_pois_cache_error:
  "getMapInstance w st = (st1, Inl e) \<Longrightarrow> GET_pois w st = (st1, Inr (pois_catch e))"
  by (simp add: handler_defs)

lemma GET_pois_call_error:
  "getMapInstance w st = (st1, Inr h) \<Longrightarrow> call_method w st1 h getAllPOIs = (st2, Inl e) \<Longrightarrow>
   GET_pois w st = (st2, Inr (pois_catch e))"
  by (simp add: handler_defs)

lemma GET_venue_cache_error:
  "getMapInstance w st = (st1, Inl e) \<Longrightarrow> GET_venue w st = (st1, Inr (message_catch e))"
  by (simp add: handler_defs)

lemma GET_venue_call_error:
  "getMapInstance w st = (st1, Inr h) \<Longrightarrow> call_method w st1 h getVenueData = (st2, Inl e) \<Longrightarrow>
   GET_venue w st = (st2, Inr (message_catch e))"
  by (simp add: handler_defs)

lemma GET_structures_cache_error:
  "getMapInstance w st = (st1, Inl e) \<Longrightarrow> GET_structures w st = (st1, Inr (message_catch e))"
  by (simp add: handler_defs)

lemma GET_structures_call_error:
  "getMapInstance w st = (st1, Inr h) \<Longrightarrow> call_method w st1 h getStructures = (st2, Inl e) \<Longrightarrow>
   GET_structures w st = (st2, Inr (message_catch e))"
  by (simp add: handler_defs)

lemma GET_search_valid:
  "searchParams_get req (utf16 ''q'') = Some q \<Longrightarrow> q \<noteq> [] \<Longrightarrow>
   GET_search w st req =
     (case getMapInstance w st of
        (st1, Inl err) \<Rightarrow> (st1, Inr (message_catch err))
      | (st1, Inr map_handle) \<Rightarrow>
          (case call_method w st1 map_handle (search q) of
             (st2, Inl err) \<Rightarrow> (st2, Inr (message_catch err))
           | (st2, Inr results) \<Rightarrow>
               (st2, Inr (NextResponse_json
                  (no_fields\<lparr>success := True, data := Some (Arr (resultsArray results)),
                             count := Some (length (resultsArray results)),
                             query := Some q\<rparr>)
                  None))))"
  by (simp add: handler_defs split: prod.splits sum.splits)

lemma GET_poi_valid:
  "parseInt10 i = Number n \<Longrightarrow>
   GET_poi w st i =
     (case getMapInstance w st of
        (st1, Inl err) \<Rightarrow> (st1, Inr (message_catch err))
      | (st1, Inr map_handle) \<Rightarrow>
          (case call_method w st1 map_handle (getPOIDetails (Number n)) of
             (st2, Inl err) \<Rightarrow> (st2, Inr (message_catch err))
           | (st2, Inr poi) \<Rightarrow>
               (st2, Inr (NextResponse_json
                  (no_fields\<lparr>success := True, data := Some poi\<rparr>) None))))"
  by (simp add: handler_defs split: prod.splits sum.splits)

text \<open>
  C4. Every route handler returns a response, and its envelope obeys the invariant:
  \<open>success: true\<close> comes without an \<open>error\<close> field, \<open>success: false\<close> without a \<open>data\<close>
  field. This holds for all five routes, on their success, validation and failure paths.
\<close>

theorem envelope_invariant:
  "\<exists>resp. snd (serve w st r) = Inr resp
     \<and> (success (body resp) \<longrightarrow> error (body resp) = None)
     \<and> (\<not> success (body resp) \<longrightarrow> data (body resp) = None)"
  by (cases r)
     (simp_all only: serve.simps GET_pois_invariant GET_poi_invariant GET_search_invariant
        GET_structures_invariant GET_venue_invariant)

text \<open>
  Two instances: the POI list of a backend that resolves with \<open>[]\<close>, and the venue
  route when the construction of the handle is rejected.
\<close>

theorem envelope_invariant_witness:
  "snd (serve (steady_world (Arr [])) initial_server Pois)
     = Inr \<lparr>status = 200,
            body = \<lparr>success = True, data = Some (Arr []), count = Some 0, query = None,
                    error = None, message = None\<rparr>\<rparr>
   \<and> snd (serve failing_world initial_server Venue)
     = Inr \<lparr>status = 500,
            body = \<lparr>success = False, data = None, count = None, query = None,
                    error = Some (utf16 ''init failed''), message = None\<rparr>\<rparr>"
  using envelope_invariant [of "steady_world (Arr [])" initial_server Pois]
    envelope_invariant [of failing_world initial_server Venue]
  by (simp add: handler_defs run_defs poisArray_simps)

subsection \<open>Errors of the handle cache and of the SDK\<close>

text \<open>
  C5. Whenever \<open>getMapInstance\<close> throws \<open>e\<close>, or returns a handle on which the SDK
  method of the route then fails with \<open>e\<close>, the handler returns a response with status
  500 and \<open>success: false\<close> that carries the message text of \<open>e\<close> (in \<open>message\<close> for the
  POI list, in \<open>error\<close> for the other four routes). This holds for each of the five
  routes, for the search route and the POI-detail route once the request has passed its
  validation. No handler lets an error escape: every request is answered by a response.
\<close>

theorem errors_become_server_errors:
  "(getMapInstance w st = (st1, Inl e) \<longrightarrow>
      (\<exists>resp. GET_pois w st = (st1, Inr resp) \<and> server_error e resp)
    \<and> (\<exists>resp. GET_structures w st = (st1, Inr resp) \<and> server_error e resp)
    \<and> (\<exists>resp. GET_venue w st = (st1, Inr resp) \<and> server_error e resp)
    \<and> (searchParams_get req (utf16 ''q'') = Some q \<and> q \<noteq> [] \<longrightarrow>
         (\<exists>resp. GET_search w st req = (st1, Inr resp) \<and> server_error e resp))
    \<and> (\<not> isNaN (parseInt10 i) \<longrightarrow>
         (\<exists>resp. GET_poi w st i = (st1, Inr resp) \<and> server_error e resp)))
   \<and> (getMapInstance w st = (st1, Inr h) \<longrightarrow>
      (call_method w st1 h getAllPOIs = (st2, Inl e) \<longrightarrow>
         (\<exists>resp. GET_pois w st = (st2, Inr resp) \<and> server_error e resp))
    \<and> (call_method w st1 h getStructures = (st2, Inl e) \<longrightarrow>
         (\<exists>resp. GET_structures w st = (st2, Inr resp) \<and> server_error e resp))
    \<and> (call_method w st1 h getVenueData = (st2, Inl e) \<longrightarrow>
         (\<exists>resp. GET_venue w st = (st2, Inr resp) \<and> server_error e resp))
    \<and> (searchParams_get req (utf16 ''q'') = Some q \<and> q \<noteq> []
        \<and> call_method w st1 h (search q) = (st2, Inl e) \<longrightarrow>
         (\<exists>resp. GET_search w st req = (st2, Inr resp) \<and> server_error e resp))
    \<and> (\<not> isNaN (parseInt10 i)
        \<and> call_method w st1 h (getPOIDetails (parseInt10 i)) = (st2, Inl e) \<longrightarrow>
         (\<exists>resp. GET_poi w st i = (st2, Inr resp) \<and> server_error e resp)))
   \<and> (\<exists>resp. snd (serve w st r) = Inr resp)"
proof -
  have cache: "(\<exists>resp. GET_pois w st = (st1, Inr resp) \<and> server_error e resp)
    \<and> (\<exists>resp. GET_structures w st = (st1, Inr resp) \<and> server_error e resp)
    \<and> (\<exists>resp. GET_venue w st = (st1, Inr resp) \<and> server_error e resp)
    \<and> (searchParams_get req (utf16 ''q'') = Some q \<and> q \<noteq> [] \<longrightarrow>
         (\<exists>resp. GET_search w st req = (st1, Inr resp) \<and> server_error e resp))
    \<and> (\<not> isNaN (parseInt10 i) \<longrightarrow>
         (\<exists>resp. GET_poi w st i = (st1, Inr resp) \<and> server_error e resp))"
    if g: "getMapInstance w st = (st1, Inl e)"
  proof -
    have "\<not> isNaN (parseInt10 i) \<longrightarrow> GET_poi w st i = (st1, Inr (message_catch e))"
      using g by (cases "parseInt10 i") (simp_all add: GET_poi_valid)
    with g show ?thesis
      by (simp add: GET_pois_cache_error GET_structures_cache_error GET_venue_cache_error
          GET_search_valid server_error_catch)
  qed
  have call: "(call_method w st1 h getAllPOIs = (st2, Inl e) \<longrightarrow>
         (\<exists>resp. GET_pois w st = (st2, Inr resp) \<and> server_error e resp))
    \<and> (call_method w st1 h getStructures = (st2, Inl e) \<longrightarrow>
         (\<exists>resp. GET_structures w st = (st2, Inr resp) \<and> server_error e resp))
    \<and> (call_method w st1 h getVenueData = (st2, Inl e) \<longrightarrow>
         (\<exists>resp. GET_venue w st = (st2, Inr resp) \<and> server_error e resp))
    \<and> (searchParams_get req (utf16 ''q'') = Some q \<and> q \<noteq> []
        \<and> call_method w st1 h (search q) = (st2, Inl e) \<longrightarrow>
         (\<exists>resp. GET_search w st req = (st2, Inr resp) \<and> server_error e resp))
    \<and> (\<not> isNaN (parseInt10 i)
        \<and> call_method w st1 h (getPOIDetails (parseInt10 i)) = (st2, Inl e) \<longrightarrow>
         (\<exists>resp. GET_poi w st i = (st2, Inr resp) \<and> server_error e resp))"
    if g: "getMapInstance w st = (st1, Inr h)"
  proof -
    have "\<not> isNaN (parseInt10 i)
        \<and> call_method w st1 h (getPOIDetails (parseInt10 i)) = (st2, Inl e) \<longrightarrow>
         GET_poi w st i = (st2, Inr (message_catch e))"
      using g by (cases "parseInt10 i") (simp_all add: GET_poi_valid)
    with g show ?thesis
      by (simp add: GET_pois_call_error GET_structures_call_error GET_venue_call_error
          GET_search_valid server_error_catch)
  qed
  from cache call no_escape [of w st r] show ?thesis by blast
qed

text \<open>
  An instance: the first construction is rejected with \<open>init failed\<close>, and the POI
  list answers 500 with that message; on the next request the handle is constructed,
  the call of \<open>getStructures\<close> is rejected with \<open>backend unavailable\<close>, and the structures
  route answers 500 with that message.
\<close>

theorem errors_become_server_errors_witness:
  "getMapInstance failing_world initial_server
     = (\<lparr>mapInstance = Null_handle, sdk_calls = [NewMap (env_config failing_world)]\<rparr>,
        Inl (Error (utf16 ''init failed'')))
   \<and> GET_pois failing_world initial_server
     = (\<lparr>mapInstance = Null_handle, sdk_calls = [NewMap (env_config failing_world)]\<rparr>,
        Inr \<lparr>status = 500,
             body = \<lparr>success = False, data = None, count = None, query = None,
                     error = Some (utf16 ''Failed to fetch POIs''),
                     message = Some (utf16 ''init failed'')\<rparr>\<rparr>)
   \<and> server_error (Error (utf16 ''init failed''))
        \<lparr>status = 500,
         body = \<lparr>success = False, data = None, count = None, query = None,
                 error = Some (utf16 ''Failed to fetch POIs''),
                 message = Some (utf16 ''init failed'')\<rparr>\<rparr>
   \<and> getMapInstance failing_world
        \<lparr>mapInstance = Null_handle, sdk_calls = [NewMap (env_config failing_world)]\<rparr>
     = (\<lparr>mapInstance = MapObject 1,
          sdk_calls = [NewMap (env_config failing_world), NewMap (env_config failing_world)]\<rparr>,
        Inr (MapObject 1))
   \<and> snd (GET_structures failing_world
        \<lparr>mapInstance = Null_handle, sdk_calls = [NewMap (env_config failing_world)]\<rparr>)
     = Inr \<lparr>status = 500,
            body = \<lparr>success = False, data = None, count = None, query = None,
                    error = Some (utf16 ''backend unavailable''), message = None\<rparr>\<rparr>"
proof -
  let ?st1 = "\<lparr>mapInstance = Null_handle, sdk_calls = [NewMap (env_config failing_world)]\<rparr>"
  let ?st2 = "\<lparr>mapInstance = MapObject 1,
          sdk_calls = [NewMap (env_config failing_world), NewMap (env_config failing_world)]\<rparr>"
  let ?st3 = "\<lparr>mapInstance = MapObject 1,
          sdk_calls = [NewMap (env_config failing_world), NewMap (env_config failing_world),
                       Method 1 getStructures]\<rparr>"
  have a: "getMapInstance failing_world initial_server = (?st1, Inl (Error (utf16 ''init failed'')))"
    by (simp add: run_defs)
  have b: "getMapInstance failing_world ?st1 = (?st2, Inr (MapObject 1))"
    by (simp add: run_defs)
  have c: "call_method failing_world ?st2 (MapObject 1) getStructures
     = (?st3, Inl (Error (utf16 ''backend unavailable'')))"
    by (simp add: run_defs)
  from errors_become_server_errors
      [where w = failing_world and st = initial_server and ?st1.0 = ?st1
         and e = "Error (utf16 ''init failed'')"]
    errors_become_server_errors
      [where w = failing_world and st = ?st1 and ?st1.0 = ?st2 and h = "MapObject 1"
         and ?st2.0 = ?st3 and e = "Error (utf16 ''backend unavailable'')"]
    a b c
  show ?thesis
    by (simp add: handler_defs server_error_def run_defs)
qed

subsection \<open>Requests that reach the SDK\<close>

lemma call_method_calls:
  "sdk_calls (fst (call_method w st h m)) =
     (case h of MapObject r \<Rightarrow> sdk_calls st @ [Method r m] | _ \<Rightarrow> sdk_calls st)"
  by (cases h) simp_all

lemma sdk_round_reaches_sdk:
  "length (sdk_calls st) < length (sdk_calls (fst (sdk_round w st m)))"
proof (cases "truthy_handle (mapInstance st)")
  case True
  then obtain k where "mapInstance st = MapObject k"
    by (cases "mapInstance st") simp_all
  then show ?thesis
    by (simp add: sdk_round_def getMapInstance_sequential)
next
  case False
  then show ?thesis
    by (simp add: sdk_round_def getMapInstance_sequential Let_def call_method_calls
        split: sum.splits handle.splits)
qed

lemma sdk_round_MapObject:
  "getMapInstance w st = (st1, Inr (MapObject r)) \<Longrightarrow>
   sdk_round w st m = (st1\<lparr>sdk_calls := sdk_calls st1 @ [Method r m]\<rparr>,
                       run_method w (sdk_calls st1) r m)"
  by (simp add: sdk_round_def)

lemma GET_pois_round:
  "GET_pois w st =
     (case sdk_round w st getAllPOIs of
        (st2, Inl err) \<Rightarrow> (st2, Inr (pois_catch err))
      | (st2, Inr pois) \<Rightarrow>
          (st2, Inr (NextResponse_json
             (no_fields\<lparr>success := True, data := Some (Arr (poisArray pois)),
                        count := Some (length (poisArray pois))\<rparr>) None)))"
  by (simp add: handler_defs sdk_round_def split: prod.splits sum.splits)

lemma GET_structures_round:
  "GET_structures w st =
     (case sdk_round w st getStructures of
        (st2, Inl err) \<Rightarrow> (st2, Inr (message_catch err))
      | (st2, Inr structures) \<Rightarrow>
          (st2, Inr (NextResponse_json
             (no_fields\<lparr>success := True, data := Some (Arr (structuresArray structures)),
                        count := Some (length (structuresArray structures))\<rparr>) None)))"
  by (simp add: handler_defs sdk_round_def split: prod.splits sum.splits)

lemma GET_venue_round:
  "GET_venue w st =
     (case sdk_round w st getVenueData of
        (st2, Inl err) \<Rightarrow> (st2, Inr (message_catch err))
      | (st2, Inr venueData) \<Rightarrow>
          (st2, Inr (NextResponse_json
             (no_fields\<lparr>success := True, data := Some venueData\<rparr>) None)))"
  by (simp add: handler_defs sdk_round_def split: prod.splits sum.splits)

lemma GET_search_round:
  "searchParams_get req (utf16 ''q'') = Some q \<Longrightarrow> q \<noteq> [] \<Longrightarrow>
   GET_search w st req =
     (case sdk_round w st (search q) of
        (st2, Inl err) \<Rightarrow> (st2, Inr (message_catch err))
      | (st2, Inr results) \<Rightarrow>
          (st2, Inr (NextResponse_json
             (no_fields\<lparr>success := True, data := Some (Arr (resultsArray results)),
                        count := Some (length (resultsArray results)),
                        query := Some q\<rparr>) None)))"
  by (simp add: handler_defs sdk_round_def split: prod.splits sum.splits)

lemma GET_search_rejects:
  "searchParams_get req (utf16 ''q'') = None \<or> searchParams_get req (utf16 ''q'') = Some [] \<Longrightarrow>
   GET_search w st req = (st, Inr query_required)"
  by (auto simp: handler_defs)

lemma GET_poi_round:
  "parseInt10 i = Number n \<Longrightarrow>
   GET_poi w st i =
     (case sdk_round w st (getPOIDetails (Number n)) of
        (st2, Inl err) \<Rightarrow> (st2, Inr (message_catch err))
      | (st2, Inr poi) \<Rightarrow>
          (st2, Inr (NextResponse_json
             (no_fields\<lparr>success := True, data := Some poi\<rparr>) None)))"
  by (simp add: handler_defs sdk_round_def split: prod.splits sum.splits)

lemma GET_poi_rejects:
  "isNaN (parseInt10 i) \<Longrightarrow> GET_poi w st i = (st, Inr invalid_poi_id)"
  by (simp add: handler_defs)

lemma query_required_eq:
  \<open>query_required =
     \<lparr>status = 400,
      body = \<lparr>success = False, data = None, count = None, query = None,
              error = Some (utf16 ''Query parameter "q" is required''), message = None\<rparr>\<rparr>\<close>
  by (simp add: query_required_def NextResponse_json_def no_fields_def)

lemma invalid_poi_id_eq:
  "invalid_poi_id =
     \<lparr>status = 400,
      body = \<lparr>success = False, data = None, count = None, query = None,
              error = Some (utf16 ''Invalid POI ID - must be a number''), message = None\<rparr>\<rparr>"
  by (simp add: invalid_poi_id_def NextResponse_json_def no_fields_def)

lemma fst_GET_search:
  "searchParams_get req (utf16 ''q'') = Some q \<Longrightarrow> q \<noteq> [] \<Longrightarrow>
   fst (GET_search w st req) = fst (sdk_round w st (search q))"
  by (simp add: GET_search_round split: prod.splits sum.splits)

lemma fst_GET_poi:
  "parseInt10 i = Number n \<Longrightarrow>
   fst (GET_poi w st i) = fst (sdk_round w st (getPOIDetails (Number n)))"
  by (simp add: GET_poi_round split: prod.splits sum.splits)

text \<open>
  C7. When the parameter \<open>q\<close> of a search request is absent or empty, the handler
  answers with status 400 and the envelope
  \<open>{success: false, error: 'Query parameter "q" is required'}\<close>, and the server state,
  with the list of SDK calls, is unchanged. When \<open>q\<close> is a non-empty string, the answer
  is not that 400: the handler goes on to the SDK, so that at least one SDK call is
  added, and once \<open>getMapInstance\<close> has given the map object \<open>r\<close> the call added last is
  \<open>search(q)\<close> on \<open>r\<close>.
\<close>

theorem search_requires_query:
  \<open>(searchParams_get req (utf16 ''q'') = None \<or> searchParams_get req (utf16 ''q'') = Some []
      \<longrightarrow> GET_search w st req =
           (st, Inr \<lparr>status = 400,
                     body = \<lparr>success = False, data = None, count = None, query = None,
                             error = Some (utf16 ''Query parameter "q" is required''),
                             message = None\<rparr>\<rparr>))
   \<and> (searchParams_get req (utf16 ''q'') = Some q \<and> q \<noteq> []
      \<longrightarrow> (\<exists>resp. snd (GET_search w st req) = Inr resp \<and> status resp \<noteq> 400)
        \<and> length (sdk_calls st) < length (sdk_calls (fst (GET_search w st req)))
        \<and> (getMapInstance w st = (st1, Inr (MapObject r))
            \<longrightarrow> sdk_calls (fst (GET_search w st req)) = sdk_calls st1 @ [Method r (search q)]))\<close>
proof -
  have reject: "searchParams_get req (utf16 ''q'') = None
      \<or> searchParams_get req (utf16 ''q'') = Some []
      \<longrightarrow> GET_search w st req = (st, Inr query_required)"
    using GET_search_rejects [of req w st] by blast
  have proceed: "(\<exists>resp. snd (GET_search w st req) = Inr resp \<and> status resp \<noteq> 400)
        \<and> length (sdk_calls st) < length (sdk_calls (fst (GET_search w st req)))
        \<and> (getMapInstance w st = (st1, Inr (MapObject r))
            \<longrightarrow> sdk_calls (fst (GET_search w st req)) = sdk_calls st1 @ [Method r (search q)])"
    if q: "searchParams_get req (utf16 ''q'') = Some q" "q \<noteq> []"
  proof -
    have a: "\<exists>resp. snd (GET_search w st req) = Inr resp \<and> status resp \<noteq> 400"
      by (simp add: GET_search_round [OF q] catch_simps response_simps
          split: prod.splits sum.splits)
    have b: "length (sdk_calls st) < length (sdk_calls (fst (GET_search w st req)))"
      using sdk_round_reaches_sdk [of st w "search q"]
      by (simp add: fst_GET_search [OF q])
    have c: "getMapInstance w st = (st1, Inr (MapObject r))
            \<longrightarrow> sdk_calls (fst (GET_search w st req)) = sdk_calls st1 @ [Method r (search q)]"
      by (simp add: fst_GET_search [OF q] sdk_round_MapObject)
    from a b c show ?thesis by blast
  qed
  from reject proceed show ?thesis
    unfolding query_required_eq by blast
qed

text \<open>
  Two instances: a request without \<open>q\<close>, and the request \<open>?q=cafe\<close>, which constructs
  the handle and calls \<open>search("cafe")\<close>.
\<close>

theorem search_requires_query_witness:
  \<open>searchParams_get \<lparr>searchParams = [(utf16 ''page'', utf16 ''2'')]\<rparr> (utf16 ''q'') = None
   \<and> GET_search (steady_world (Obj [])) initial_server
        \<lparr>searchParams = [(utf16 ''page'', utf16 ''2'')]\<rparr>
     = (initial_server,
        Inr \<lparr>status = 400,
             body = \<lparr>success = False, data = None, count = None, query = None,
                     error = Some (utf16 ''Query parameter "q" is required''),
                     message = None\<rparr>\<rparr>)
   \<and> searchParams_get \<lparr>searchParams = [(utf16 ''q'', utf16 ''cafe'')]\<rparr> (utf16 ''q'')
     = Some (utf16 ''cafe'')
   \<and> utf16 ''cafe'' \<noteq> []
   \<and> getMapInstance (steady_world (Obj [])) initial_server
     = (\<lparr>mapInstance = MapObject 1,
          sdk_calls = [NewMap (env_config (steady_world (Obj [])))]\<rparr>, Inr (MapObject 1))
   \<and> sdk_calls (fst (GET_search (steady_world (Obj [])) initial_server
        \<lparr>searchParams = [(utf16 ''q'', utf16 ''cafe'')]\<rparr>))
     = [NewMap (env_config (steady_world (Obj []))), Method 1 (search (utf16 ''cafe''))]\<close>
proof -
  let ?w = "steady_world (Obj [])"
  let ?none = "\<lparr>searchParams = [(utf16 ''page'', utf16 ''2'')]\<rparr>"
  let ?cafe = "\<lparr>searchParams = [(utf16 ''q'', utf16 ''cafe'')]\<rparr>"
  let ?st1 = "\<lparr>mapInstance = MapObject 1, sdk_calls = [NewMap (env_config ?w)]\<rparr>"
  have a: "searchParams_get ?none (utf16 ''q'') = None"
    by (simp add: searchParams_get_def utf16_def)
  have b: "searchParams_get ?cafe (utf16 ''q'') = Some (utf16 ''cafe'')"
    by (simp add: searchParams_get_def)
  have c: "utf16 ''cafe'' \<noteq> []"
    by (simp add: utf16_def)
  have d: "getMapInstance ?w initial_server = (?st1, Inr (MapObject 1))"
    by (simp add: run_defs)
  from search_requires_query [where req = ?none and w = ?w and st = initial_server]
    search_requires_query [where req = ?cafe and w = ?w and st = initial_server
      and q = "utf16 ''cafe''" and ?st1.0 = ?st1 and r = 1]
    a b c d
  show ?thesis by simp
qed

subsection \<open>The lists of the routes\<close>

lemma GET_pois_resolved:
  "getMapInstance w st = (st1, Inr (MapObject r)) \<Longrightarrow>
   run_method w (sdk_calls st1) r getAllPOIs = Inr raw \<Longrightarrow>
   snd (GET_pois w st) =
     Inr \<lparr>status = 200,
          body = \<lparr>success = True, data = Some (Arr (poisArray raw)),
                  count = Some (length (poisArray raw)), query = None, error = None,
                  message = None\<rparr>\<rparr>"
  by (simp add: GET_pois_round sdk_round_MapObject NextResponse_json_def no_fields_def)

lemma GET_structures_resolved:
  "getMapInstance w st = (st1, Inr (MapObject r)) \<Longrightarrow>
   run_method w (sdk_calls st1) r getStructures = Inr raw \<Longrightarrow>
   snd (GET_structures w st) =
     Inr \<lparr>status = 200,
          body = \<lparr>success = True, data = Some (Arr (structuresArray raw)),
                  count = Some (length (structuresArray raw)), query = None, error = None,
                  message = None\<rparr>\<rparr>"
  by (simp add: GET_structures_round sdk_round_MapObject NextResponse_json_def no_fields_def)

lemma GET_search_resolved:
  "searchParams_get req (utf16 ''q'') = Some q \<Longrightarrow> q \<noteq> [] \<Longrightarrow>
   getMapInstance w st = (st1, Inr (MapObject r)) \<Longrightarrow>
   run_method w (sdk_calls st1) r (search q) = Inr raw \<Longrightarrow>
   snd (GET_search w st req) =
     Inr \<lparr>status = 200,
          body = \<lparr>success = True, data = Some (Arr (resultsArray raw)),
                  count = Some (length (resultsArray raw)), query = Some q, error = None,
                  message = None\<rparr>\<rparr>"
  by (simp add: GET_search_round sdk_round_MapObject NextResponse_json_def no_fields_def)

text \<open>
  C1, as amended. The three list routes convert a raw SDK result by one and the same
  rule, and put the array it gives in the field \<open>data\<close>. An array is returned unchanged.
  An object is replaced by the sequence of its values in the order of \<open>Object.values\<close>:
  first the values of the array-index keys in ascending numeric order, then the values
  of the other keys in insertion order; this is the insertion order of the
  specification's rule \<open>normalize_spec\<close> whenever the array-index keys were inserted first and
  in ascending order. Anything else (\<open>undefined\<close>, \<open>null\<close>, a scalar) is replaced by the
  empty sequence.
\<close>

theorem list_routes_conversion_rule:
  "resultsArray raw = poisArray raw \<and> structuresArray raw = poisArray raw
   \<and> poisArray (Arr xs) = xs
   \<and> poisArray (Obj kvs) =
       map snd (sort_key (\<lambda>kv. digits_value (fst kv))
                  (filter (\<lambda>kv. is_array_index (fst kv)) kvs))
       @ map snd (filter (\<lambda>kv. \<not> is_array_index (fst kv)) kvs)
   \<and> ((\<forall>kv \<in> set ixs. is_array_index (fst kv))
        \<and> sorted (map (\<lambda>kv. digits_value (fst kv)) ixs)
        \<and> (\<forall>kv \<in> set others. \<not> is_array_index (fst kv))
        \<longrightarrow> poisArray (Obj (ixs @ others)) = normalize_spec (Obj (ixs @ others)))
   \<and> ((\<forall>ys. raw \<noteq> Arr ys) \<and> (\<forall>ps. raw \<noteq> Obj ps) \<longrightarrow> poisArray raw = [])
   \<and> (getMapInstance w st = (st1, Inr (MapObject r)) \<longrightarrow>
        (run_method w (sdk_calls st1) r getAllPOIs = Inr raw \<longrightarrow>
           (\<exists>resp. snd (GET_pois w st) = Inr resp
              \<and> data (body resp) = Some (Arr (poisArray raw))))
      \<and> (run_method w (sdk_calls st1) r getStructures = Inr raw \<longrightarrow>
           (\<exists>resp. snd (GET_structures w st) = Inr resp
              \<and> data (body resp) = Some (Arr (poisArray raw))))
      \<and> (searchParams_get req (utf16 ''q'') = Some q \<and> q \<noteq> []
          \<and> run_method w (sdk_calls st1) r (search q) = Inr raw \<longrightarrow>
           (\<exists>resp. snd (GET_search w st req) = Inr resp
              \<and> data (body resp) = Some (Arr (poisArray raw)))))"
proof -
  have same: "resultsArray raw = poisArray raw \<and> structuresArray raw = poisArray raw"
    by (simp add: resultsArray_eq structuresArray_eq)
  have obj: "poisArray (Obj kvs) =
       map snd (sort_key (\<lambda>kv. digits_value (fst kv))
                  (filter (\<lambda>kv. is_array_index (fst kv)) kvs))
       @ map snd (filter (\<lambda>kv. \<not> is_array_index (fst kv)) kvs)"
    by (simp add: poisArray_simps own_property_order_def)
  have ordered: "(\<forall>kv \<in> set ixs. is_array_index (fst kv))
        \<and> sorted (map (\<lambda>kv. digits_value (fst kv)) ixs)
        \<and> (\<forall>kv \<in> set others. \<not> is_array_index (fst kv))
        \<longrightarrow> poisArray (Obj (ixs @ others)) = normalize_spec (Obj (ixs @ others))"
    using own_property_order_insertion [of ixs others]
    by (simp add: poisArray_simps del: map_append)
  have other: "(\<forall>ys. raw \<noteq> Arr ys) \<and> (\<forall>ps. raw \<noteq> Obj ps) \<longrightarrow> poisArray raw = []"
    by (cases raw) (simp_all add: poisArray_simps)
  have routes: "(run_method w (sdk_calls st1) r getAllPOIs = Inr raw \<longrightarrow>
           (\<exists>resp. snd (GET_pois w st) = Inr resp
              \<and> data (body resp) = Some (Arr (poisArray raw))))
      \<and> (run_method w (sdk_calls st1) r getStructures = Inr raw \<longrightarrow>
           (\<exists>resp. snd (GET_structures w st) = Inr resp
              \<and> data (body resp) = Some (Arr (poisArray raw))))
      \<and> (searchParams_get req (utf16 ''q'') = Some q \<and> q \<noteq> []
          \<and> run_method w (sdk_calls st1) r (search q) = Inr raw \<longrightarrow>
           (\<exists>resp. snd (GET_search w st req) = Inr resp
              \<and> data (body resp) = Some (Arr (poisArray raw))))"
    if g: "getMapInstance w st = (st1, Inr (MapObject r))"
    using g
    by (simp add: GET_pois_resolved GET_structures_resolved GET_search_resolved
        resultsArray_eq structuresArray_eq)
  from same obj ordered other routes show ?thesis
    using poisArray_simps(1) [of xs] by blast
qed

text \<open>
  The examples of the specification: \<open>[]\<close>, \<open>{}\<close> and \<open>null\<close> give \<open>[]\<close>,
  \<open>{"0":{"id":1},"1":{"id":2}}\<close> gives \<open>[{"id":1},{"id":2}]\<close>, and \<open>[{"id":9}]\<close> is
  returned as it is; the structures route answers a backend result \<open>null\<close> with
  \<open>data: []\<close>.
\<close>

theorem list_routes_conversion_rule_witness:
  "poisArray (Arr []) = [] \<and> poisArray (Obj []) = [] \<and> poisArray Null = []
   \<and> poisArray (Arr [Obj [(utf16 ''id'', Num (Number 9))]])
       = [Obj [(utf16 ''id'', Num (Number 9))]]
   \<and> is_array_index (utf16 ''0'') \<and> is_array_index (utf16 ''1'')
   \<and> sorted (map (\<lambda>kv. digits_value (fst kv))
               [(utf16 ''0'', Obj [(utf16 ''id'', Num (Number 1))]),
                (utf16 ''1'', Obj [(utf16 ''id'', Num (Number 2))])])
   \<and> resultsArray (Obj [(utf16 ''0'', Obj [(utf16 ''id'', Num (Number 1))]),
                         (utf16 ''1'', Obj [(utf16 ''id'', Num (Number 2))])])
       = [Obj [(utf16 ''id'', Num (Number 1))], Obj [(utf16 ''id'', Num (Number 2))]]
   \<and> getMapInstance (steady_world Null) initial_server
       = (\<lparr>mapInstance = MapObject 1,
            sdk_calls = [NewMap (env_config (steady_world Null))]\<rparr>, Inr (MapObject 1))
   \<and> run_method (steady_world Null) [NewMap (env_config (steady_world Null))] 1 getStructures
       = Inr Null
   \<and> snd (GET_structures (steady_world Null) initial_server)
       = Inr \<lparr>status = 200,
              body = \<lparr>success = True, data = Some (Arr []), count = Some 0, query = None,
                      error = None, message = None\<rparr>\<rparr>"
proof -
  let ?obj = "[(utf16 ''0'', Obj [(utf16 ''id'', Num (Number 1))]),
               (utf16 ''1'', Obj [(utf16 ''id'', Num (Number 2))])]"
  let ?w = "steady_world Null"
  let ?st1 = "\<lparr>mapInstance = MapObject 1, sdk_calls = [NewMap (env_config ?w)]\<rparr>"
  have g: "getMapInstance ?w initial_server = (?st1, Inr (MapObject 1))"
    by (simp add: run_defs)
  have m: "run_method ?w [NewMap (env_config ?w)] 1 getStructures = Inr Null"
    by (simp add: steady_world_def)
  have s: "snd (GET_structures ?w initial_server)
       = Inr \<lparr>status = 200,
              body = \<lparr>success = True, data = Some (Arr []), count = Some 0, query = None,
                      error = None, message = None\<rparr>\<rparr>"
    using GET_structures_resolved [OF g, of Null] m
    by (simp add: structuresArray_eq poisArray_simps)
  from list_routes_conversion_rule [where raw = "Obj ?obj" and ixs = ?obj and others = "[]"
      and xs = "[]" and kvs = "[]"]
    list_routes_conversion_rule [where raw = Null and w = ?w and st = initial_server
      and ?st1.0 = ?st1 and r = 1]
    g m s
  show ?thesis
    by (simp add: poisArray_simps own_property_order_def is_array_index_0 is_array_index_1
        digits_value_0_1)
qed

text \<open>
  C1 as stated fails on an object whose array-index keys were not inserted in ascending
  order: for the object built by inserting the key \<open>"1"\<close> (value \<open>"a"\<close>) and then the key
  \<open>"0"\<close> (value \<open>"b"\<close>), the conversion gives \<open>["b","a"]\<close> and the POI list answers with
  \<open>data: ["b","a"]\<close>, while the values in insertion order are \<open>["a","b"]\<close>.
\<close>

theorem insertion_order_counterexample:
  "poisArray (Obj [(utf16 ''1'', Str (utf16 ''a'')), (utf16 ''0'', Str (utf16 ''b''))])
     = [Str (utf16 ''b''), Str (utf16 ''a'')]
   \<and> normalize_spec (Obj [(utf16 ''1'', Str (utf16 ''a'')), (utf16 ''0'', Str (utf16 ''b''))])
     = [Str (utf16 ''a''), Str (utf16 ''b'')]
   \<and> poisArray (Obj [(utf16 ''1'', Str (utf16 ''a'')), (utf16 ''0'', Str (utf16 ''b''))])
     \<noteq> normalize_spec (Obj [(utf16 ''1'', Str (utf16 ''a'')), (utf16 ''0'', Str (utf16 ''b''))])
   \<and> snd (GET_pois
        (steady_world (Obj [(utf16 ''1'', Str (utf16 ''a'')), (utf16 ''0'', Str (utf16 ''b''))]))
        initial_server)
     = Inr \<lparr>status = 200,
            body = \<lparr>success = True, data = Some (Arr [Str (utf16 ''b''), Str (utf16 ''a'')]),
                    count = Some 2, query = None, error = None, message = None\<rparr>\<rparr>"
proof -
  let ?raw = "Obj [(utf16 ''1'', Str (utf16 ''a'')), (utf16 ''0'', Str (utf16 ''b''))]"
  let ?w = "steady_world ?raw"
  let ?st1 = "\<lparr>mapInstance = MapObject 1, sdk_calls = [NewMap (env_config ?w)]\<rparr>"
  have p: "poisArray ?raw = [Str (utf16 ''b''), Str (utf16 ''a'')]"
    by (simp add: poisArray_simps own_property_order_def is_array_index_0 is_array_index_1
        digits_value_0_1)
  have n: "[Str (utf16 ''b''), Str (utf16 ''a'')] \<noteq> normalize_spec ?raw"
    by (simp add: utf16_def)
  have g: "getMapInstance ?w initial_server = (?st1, Inr (MapObject 1))"
    by (simp add: run_defs)
  have m: "run_method ?w (sdk_calls ?st1) 1 getAllPOIs = Inr ?raw"
    by (simp add: steady_world_def)
  from GET_pois_resolved [OF g m] p n show ?thesis by simp
qed

text \<open>
  C8. In every success envelope of a list route (POI list, structures, search) \<open>data\<close>
  is an array and \<open>count\<close> is the number of its elements; the success envelope of the
  search route has \<open>query\<close> equal to the parameter \<open>q\<close> of the request.
\<close>

theorem list_envelope_count:
  "(snd (GET_pois w st) = Inr resp \<and> success (body resp) \<longrightarrow>
      (\<exists>xs. data (body resp) = Some (Arr xs) \<and> count (body resp) = Some (length xs)))
   \<and> (snd (GET_structures w st) = Inr resp \<and> success (body resp) \<longrightarrow>
      (\<exists>xs. data (body resp) = Some (Arr xs) \<and> count (body resp) = Some (length xs)))
   \<and> (snd (GET_search w st req) = Inr resp \<and> success (body resp) \<longrightarrow>
      (\<exists>xs. data (body resp) = Some (Arr xs) \<and> count (body resp) = Some (length xs))
      \<and> query (body resp) = searchParams_get req (utf16 ''q''))"
proof -
  have pois: "snd (GET_pois w st) = Inr resp \<and> success (body resp) \<longrightarrow>
      (\<exists>xs. data (body resp) = Some (Arr xs) \<and> count (body resp) = Some (length xs))"
    by (auto simp: GET_pois_round catch_simps response_simps no_fields_def
        split: prod.splits sum.splits)
  have structures: "snd (GET_structures w st) = Inr resp \<and> success (body resp) \<longrightarrow>
      (\<exists>xs. data (body resp) = Some (Arr xs) \<and> count (body resp) = Some (length xs))"
    by (auto simp: GET_structures_round catch_simps response_simps no_fields_def
        split: prod.splits sum.splits)
  have search: "snd (GET_search w st req) = Inr resp \<and> success (body resp) \<longrightarrow>
      (\<exists>xs. data (body resp) = Some (Arr xs) \<and> count (body resp) = Some (length xs))
      \<and> query (body resp) = searchParams_get req (utf16 ''q'')"
    by (auto simp: handler_defs catch_simps validation_simps response_simps no_fields_def
        split: prod.splits sum.splits option.splits if_splits)
  from pois structures search show ?thesis by blast
qed

text \<open>
  The examples of the specification: a backend result of three items gives
  \<open>count: 3\<close>, and an empty mapping for the query \<open>cafe\<close> gives
  \<open>{success: true, data: [], count: 0, query: "cafe"}\<close>.
\<close>

theorem list_envelope_count_witness:
  "snd (GET_pois (steady_world (Arr [Obj [(utf16 ''id'', Num (Number 1))],
                                      Obj [(utf16 ''id'', Num (Number 2))],
                                      Obj [(utf16 ''id'', Num (Number 3))]])) initial_server)
     = Inr \<lparr>status = 200,
            body = \<lparr>success = True,
                    data = Some (Arr [Obj [(utf16 ''id'', Num (Number 1))],
                                      Obj [(utf16 ''id'', Num (Number 2))],
                                      Obj [(utf16 ''id'', Num (Number 3))]]),
                    count = Some 3, query = None, error = None, message = None\<rparr>\<rparr>
   \<and> snd (GET_search (steady_world (Obj [])) initial_server
            \<lparr>searchParams = [(utf16 ''q'', utf16 ''cafe'')]\<rparr>)
     = Inr \<lparr>status = 200,
            body = \<lparr>success = True, data = Some (Arr []), count = Some 0,
                    query = Some (utf16 ''cafe''), error = None, message = None\<rparr>\<rparr>"
proof -
  let ?three = "Arr [Obj [(utf16 ''id'', Num (Number 1))], Obj [(utf16 ''id'', Num (Number 2))],
                     Obj [(utf16 ''id'', Num (Number 3))]]"
  let ?r1 = "\<lparr>status = 200,
            body = \<lparr>success = True, data = Some ?three,
                    count = Some 3, query = None, error = None, message = None\<rparr>\<rparr>"
  let ?r2 = "\<lparr>status = 200,
            body = \<lparr>success = True, data = Some (Arr []), count = Some 0,
                    query = Some (utf16 ''cafe''), error = None, message = None\<rparr>\<rparr>"
  let ?cafe = "\<lparr>searchParams = [(utf16 ''q'', utf16 ''cafe'')]\<rparr>"
  have q: "searchParams_get ?cafe (utf16 ''q'') = Some (utf16 ''cafe'')" "utf16 ''cafe'' \<noteq> []"
    by (simp_all add: searchParams_get_def) (simp add: utf16_def)
  have a: "snd (GET_pois (steady_world ?three) initial_server) = Inr ?r1"
    by (simp add: handler_defs run_defs poisArray_simps)
  have b: "snd (GET_search (steady_world (Obj [])) initial_server ?cafe) = Inr ?r2"
    by (simp add: GET_search_valid [OF q] run_defs resultsArray_eq poisArray_simps
        own_property_order_def)
  from list_envelope_count [where w = "steady_world ?three" and st = initial_server and resp = ?r1]
    list_envelope_count [where w = "steady_world (Obj [])" and st = initial_server
      and req = ?cafe and resp = ?r2]
    a b
  show ?thesis by simp
qed

section \<open>The id of a point of interest\<close>

lemma digit_not_white_space: "is_digit c \<Longrightarrow> \<not> is_white_space c"
  by (auto simp: is_digit_def is_white_space_def)

lemma sign_not_white_space: "\<not> is_white_space 43" "\<not> is_white_space 45"
  by (simp_all add: is_white_space_def)

lemma sign_not_digit: "\<not> is_digit 43" "\<not> is_digit 45"
  by (simp_all add: is_digit_def)

lemma takeWhile_digits:
  "list_all is_digit ds \<Longrightarrow> rest = [] \<or> \<not> is_digit (hd rest) \<Longrightarrow>
   takeWhile is_digit (ds @ rest) = ds"
  by (cases rest) (auto simp: list_all_iff)

lemma parseInt10_prefix:
  assumes ws: "list_all is_white_space ws"
    and sg: "sg = [] \<or> sg = [43] \<or> sg = [45]"
    and ds: "ds \<noteq> []" "list_all is_digit ds"
    and rest: "rest = [] \<or> \<not> is_digit (hd rest)"
  shows "parseInt10 (ws @ sg @ ds @ rest)
         = Number (of_int ((if sg = [45] then - 1 else 1) * int (digits_value ds)))"
proof -
  from ds obtain d ds' where d: "ds = d # ds'" "is_digit d"
    by (cases ds) auto
  have nws: "sg @ ds @ rest \<noteq> [] \<and> \<not> is_white_space (hd (sg @ ds @ rest))"
    using sg d by (auto simp: sign_not_white_space digit_not_white_space)
  from ws have "dropWhile is_white_space (ws @ sg @ ds @ rest)
      = dropWhile is_white_space (sg @ ds @ rest)"
    by (simp add: list_all_iff)
  also from nws have "\<dots> = sg @ ds @ rest"
    by (cases "sg @ ds @ rest") auto
  finally have S: "dropWhile is_white_space (ws @ sg @ ds @ rest) = sg @ ds @ rest" .
  have Z: "takeWhile is_digit (ds @ rest) = ds"
    using ds(2) rest by (rule takeWhile_digits)
  from sg show ?thesis
  proof (elim disjE)
    assume "sg = []"
    with S Z d show ?thesis
      by (simp add: parseInt10_def Let_def is_digit_def)
  next
    assume "sg = [43]"
    with S Z ds(1) show ?thesis
      by (simp add: parseInt10_def Let_def)
  next
    assume "sg = [45]"
    with S Z ds(1) show ?thesis
      by (simp add: parseInt10_def Let_def)
  qed
qed

lemma parseInt10_NaN_iff:
  "isNaN (parseInt10 s) \<longleftrightarrow>
     (let S = dropWhile is_white_space s;
          S' = (if S \<noteq> [] \<and> (hd S = 43 \<or> hd S = 45) then tl S else S)
      in S' = [] \<or> \<not> is_digit (hd S'))"
  by (simp add: parseInt10_def Let_def takeWhile_eq_Nil_iff)

text \<open>
  C6. When the id of the path is not parseable as a base-10 integer, that is when
  \<open>parseInt(id, 10)\<close> is NaN (after optional white space and an optional sign the id
  does not start with a decimal digit), the POI-detail route answers with status 400 and
  the envelope \<open>{success: false, error: "Invalid POI ID - must be a number"}\<close>; the
  server state is unchanged, so neither the constructor nor a method of the SDK has
  been called.
\<close>

theorem invalid_id_rejected:
  "isNaN (parseInt10 i) \<Longrightarrow>
   GET_poi w st i =
     (st, Inr \<lparr>status = 400,
               body = \<lparr>success = False, data = None, count = None, query = None,
                       error = Some (utf16 ''Invalid POI ID - must be a number''),
                       message = None\<rparr>\<rparr>)"
  by (simp add: GET_poi_rejects invalid_poi_id_eq)

text \<open>
  An instance: the id \<open>abc\<close>.
\<close>

theorem invalid_id_rejected_witness:
  "isNaN (parseInt10 (utf16 ''abc''))
   \<and> GET_poi (steady_world Null) initial_server (utf16 ''abc'')
     = (initial_server,
        Inr \<lparr>status = 400,
             body = \<lparr>success = False, data = None, count = None, query = None,
                     error = Some (utf16 ''Invalid POI ID - must be a number''),
                     message = None\<rparr>\<rparr>)"
proof -
  have a: "isNaN (parseInt10 (utf16 ''abc''))"
    by (simp add: parseInt10_def utf16_def is_white_space_def is_digit_def)
  from invalid_id_rejected [OF a] a show ?thesis by simp
qed

text \<open>
  C9. An id that consists of an optional sign and a non-empty run of decimal digits
  followed by something that does not start with a digit (such as \<open>3.7\<close> or \<open>12abc\<close>)
  is parsed as the integer its digits write, with that sign. The POI-detail route does
  not answer 400: it answers exactly as for the id without the trailing part, it
  reaches the SDK, and once \<open>getMapInstance\<close> has given the map object \<open>r\<close> the call
  added last is \<open>getPOIDetails\<close> on \<open>r\<close> with that integer.
\<close>

theorem lenient_poi_id:
  assumes sg: "sg = [] \<or> sg = [43] \<or> sg = [45]"
    and ds: "ds \<noteq> []" "list_all is_digit ds"
    and rest: "rest \<noteq> []" "\<not> is_digit (hd rest)"
  shows "parseInt10 (sg @ ds @ rest)
           = Number (of_int ((if sg = [45] then - 1 else 1) * int (digits_value ds)))
     \<and> (\<exists>resp. snd (GET_poi w st (sg @ ds @ rest)) = Inr resp \<and> status resp \<noteq> 400)
     \<and> GET_poi w st (sg @ ds @ rest) = GET_poi w st (sg @ ds)
     \<and> length (sdk_calls st) < length (sdk_calls (fst (GET_poi w st (sg @ ds @ rest))))
     \<and> (getMapInstance w st = (st1, Inr (MapObject r)) \<longrightarrow>
          sdk_calls (fst (GET_poi w st (sg @ ds @ rest)))
            = sdk_calls st1 @ [Method r (getPOIDetails
                (Number (of_int ((if sg = [45] then - 1 else 1) * int (digits_value ds)))))])"
proof -
  let ?n = "of_int ((if sg = [45] then - 1 else 1) * int (digits_value ds)) :: rat"
  have p: "parseInt10 (sg @ ds @ rest) = Number ?n"
    using parseInt10_prefix [of "[]" sg ds rest] sg ds rest by simp
  have p': "parseInt10 (sg @ ds) = Number ?n"
    using parseInt10_prefix [of "[]" sg ds "[]"] sg ds by simp
  have a: "\<exists>resp. snd (GET_poi w st (sg @ ds @ rest)) = Inr resp \<and> status resp \<noteq> 400"
    by (simp add: GET_poi_round [OF p] catch_simps response_simps
        split: prod.splits sum.splits)
  have b: "GET_poi w st (sg @ ds @ rest) = GET_poi w st (sg @ ds)"
    by (simp only: GET_poi_round [OF p] GET_poi_round [OF p'])
  have c: "length (sdk_calls st) < length (sdk_calls (fst (GET_poi w st (sg @ ds @ rest))))"
    using sdk_round_reaches_sdk [of st w "getPOIDetails (Number ?n)"]
    by (simp only: fst_GET_poi [OF p])
  have d: "getMapInstance w st = (st1, Inr (MapObject r)) \<longrightarrow>
          sdk_calls (fst (GET_poi w st (sg @ ds @ rest)))
            = sdk_calls st1 @ [Method r (getPOIDetails (Number ?n))]"
    by (simp add: fst_GET_poi [OF p] sdk_round_MapObject)
  from p a b c d show ?thesis by blast
qed

text \<open>
  The two examples: \<open>3.7\<close> is looked up as 3 and \<open>12abc\<close> as 12.
\<close>

theorem lenient_poi_id_witness:
  "parseInt10 (utf16 ''3.7'') = Number 3
   \<and> parseInt10 (utf16 ''12abc'') = Number 12
   \<and> getMapInstance (steady_world Null) initial_server
     = (\<lparr>mapInstance = MapObject 1,
          sdk_calls = [NewMap (env_config (steady_world Null))]\<rparr>, Inr (MapObject 1))
   \<and> sdk_calls (fst (GET_poi (steady_world Null) initial_server (utf16 ''3.7'')))
     = [NewMap (env_config (steady_world Null)), Method 1 (getPOIDetails (Number 3))]
   \<and> sdk_calls (fst (GET_poi (steady_world Null) initial_server (utf16 ''12abc'')))
     = [NewMap (env_config (steady_world Null)), Method 1 (getPOIDetails (Number 12))]
   \<and> GET_poi (steady_world Null) initial_server (utf16 ''12abc'')
     = GET_poi (steady_world Null) initial_server (utf16 ''12'')"
proof -
  let ?w = "steady_world Null"
  let ?st1 = "\<lparr>mapInstance = MapObject 1, sdk_calls = [NewMap (env_config ?w)]\<rparr>"
  have d: "getMapInstance ?w initial_server = (?st1, Inr (MapObject 1))"
    by (simp add: run_defs)
  have s: "[] @ utf16 ''3'' @ utf16 ''.7'' = utf16 ''3.7''"
    "[] @ utf16 ''12'' @ utf16 ''abc'' = utf16 ''12abc''"
    "[] @ utf16 ''12'' = utf16 ''12''"
    by (simp_all add: utf16_def)
  have v: "digits_value (utf16 ''3'') = 3" "digits_value (utf16 ''12'') = 12"
    by (simp_all add: utf16_def digits_value_def)
  have h: "utf16 ''3'' \<noteq> []" "list_all is_digit (utf16 ''3'')"
    "utf16 ''.7'' \<noteq> []" "\<not> is_digit (hd (utf16 ''.7''))"
    "utf16 ''12'' \<noteq> []" "list_all is_digit (utf16 ''12'')"
    "utf16 ''abc'' \<noteq> []" "\<not> is_digit (hd (utf16 ''abc''))"
    by (simp_all add: utf16_def is_digit_def)
  from lenient_poi_id [where sg = "[]" and ds = "utf16 ''3''" and rest = "utf16 ''.7''"
      and w = ?w and st = initial_server and ?st1.0 = ?st1 and r = 1, OF _ h(1-4)]
    lenient_poi_id [where sg = "[]" and ds = "utf16 ''12''" and rest = "utf16 ''abc''"
      and w = ?w and st = initial_server and ?st1.0 = ?st1 and r = 1, OF _ h(5-8)]
    d
  show ?thesis
    by (simp only: s v) (simp (no_asm_use), blast)
qed

end
